theory Spec2Isabelle
  imports Complex_Main "HOL-Library.Log_Nat"
begin

section \<open>Strings and paths\<close>

text \<open>
  Strings are byte strings. A path is the list of its components, so that
  \<^verbatim>\<open>dir_path / fn\<close> is \<open>dir_path @ [fn]\<close>; \<^verbatim>\<open>str\<close> and \<^verbatim>\<open>Path\<close> on
  such a path are inverse to each other and are left out.
\<close>

type_synonym path = "string list"

definition lower_char :: "char \<Rightarrow> char" where
  "lower_char c = (let n = (of_char c :: nat) in if 65 \<le> n \<and> n \<le> 90 then char_of (n + 32) else c)"

definition upper_char :: "char \<Rightarrow> char" where
  "upper_char c = (let n = (of_char c :: nat) in if 97 \<le> n \<and> n \<le> 122 then char_of (n - 32) else c)"

text \<open>\<^verbatim>\<open>str.lower\<close> and \<^verbatim>\<open>str.upper\<close> on ASCII.\<close>

definition str_lower :: "string \<Rightarrow> string" where
  "str_lower s = map lower_char s"

definition str_upper :: "string \<Rightarrow> string" where
  "str_upper s = map upper_char s"

text \<open>\<^verbatim>\<open>s.rfind(c)\<close>: the last index of \<open>c\<close>, \<open>None\<close> for Python's \<open>-1\<close>.\<close>

fun rfind :: "char \<Rightarrow> string \<Rightarrow> nat option" where
  "rfind c [] = None"
| "rfind c (x # xs) =
     (case rfind c xs of
        Some i \<Rightarrow> Some (Suc i)
      | None \<Rightarrow> if x = c then Some 0 else None)"

text \<open>\<^verbatim>\<open>Path.name\<close>: the last component, empty for the empty path.\<close>

definition Path_name :: "path \<Rightarrow> string" where
  "Path_name p = (if p = [] then [] else last p)"

text \<open>
  \<^verbatim>\<open>Path.suffix\<close> of pathlib, on a file name:
  \<^verbatim>\<open>i = name.rfind('.'); return name[i:] if 0 < i < len(name) - 1 else ''\<close>.
\<close>

definition suffix_of_name :: "string \<Rightarrow> string" where
  "suffix_of_name name =
     (case rfind (CHR ''.'') name of
        None \<Rightarrow> []
      | Some i \<Rightarrow> if 0 < i \<and> i + 1 < length name then drop i name else [])"

definition Path_suffix :: "path \<Rightarrow> string" where
  "Path_suffix p = suffix_of_name (Path_name p)"

text \<open>
  The extension \<^verbatim>\<open>os.path.splitext(filename)[1]\<close> that \<^verbatim>\<open>Image.save\<close> reads:
  from the last dot, unless only dots come before it.
\<close>

definition splitext_ext :: "string \<Rightarrow> string" where
  "splitext_ext name =
     (case rfind (CHR ''.'') name of
        None \<Rightarrow> []
      | Some i \<Rightarrow> if list_ex (\<lambda>c. c \<noteq> CHR ''.'') (take i name) then drop i name else [])"

text \<open>The extension OpenCV's \<^verbatim>\<open>imwrite\<close> reads: everything from the last dot.\<close>

definition cv2_ext :: "string \<Rightarrow> string" where
  "cv2_ext name = (case rfind (CHR ''.'') name of None \<Rightarrow> [] | Some i \<Rightarrow> drop i name)"

section \<open>Images, the file system and the log\<close>

datatype img_format = PNG | JPEG

text \<open>
  A decoded PIL image: its size and its mode (\<^verbatim>\<open>"RGB"\<close>, \<^verbatim>\<open>"RGBA"\<close>, \<^verbatim>\<open>"P"\<close>, ...) as
  stored, and the EXIF orientation tag of its metadata (1 to 8; 1 when there is
  none). Pillow reports the stored size whatever the orientation says.
\<close>

record image =
  width :: nat
  height :: nat
  mode :: string
  orientation :: nat

text \<open>The orientations 5 to 8 exchange the two axes.\<close>

definition transposes :: "nat \<Rightarrow> bool" where
  "transposes tag = (5 \<le> tag \<and> tag \<le> 8)"

text \<open>An OpenCV matrix as \<^verbatim>\<open>cv2.imread\<close> returns it: 8-bit, three channels.\<close>

record mat =
  rows :: nat
  cols :: nat

text \<open>
  The bytes of a regular file: an image encoded in one of the two formats the
  pipeline handles, or anything else, which no decoder identifies.
\<close>

datatype content = Encoded img_format image | Undecodable

text \<open>A directory holds the names \<^verbatim>\<open>os.listdir\<close> returns, in that order.\<close>

datatype node = File content | Dir "string list"

datatype error =
    FileNotFoundError
  | IsADirectoryError
  | NotADirectoryError
  | PermissionError
  | UnidentifiedImageError
  | ValueError
  | KeyError string
  | OSError
  | ZeroDivisionError
  | OverflowError
  | Cv2Error

text \<open>The messages the program logs, with the level loguru gives each.\<close>

datatype log_entry =
    NotValidDirectory path    \<comment> \<open>error: \<^verbatim>\<open>{dir_path} is not a valid directory path.\<close>\<close>
  | NotValidFile path         \<comment> \<open>error: \<^verbatim>\<open>{img_fp} is not a valid file path.\<close>\<close>
  | HeightTooSmall nat int    \<comment> \<open>warning: \<^verbatim>\<open>Input image height is too small. Current: .. Wanted: ..\<close>\<close>
  | InvalidDirectoryPath path \<comment> \<open>error: \<^verbatim>\<open>Invalid directory path: {img_dir}\<close>\<close>
  | FailedUpscale path        \<comment> \<open>warning: \<^verbatim>\<open>Failed to upscale image: {img_fp}\<close>\<close>
  | Upscaled path             \<comment> \<open>info: \<^verbatim>\<open>Upscaled image: {img_fp}\<close>\<close>
  | FailedResize path         \<comment> \<open>warning: \<^verbatim>\<open>Failed to resize image: {img_fp}\<close>\<close>
  | Resized path              \<comment> \<open>info: \<^verbatim>\<open>Resized image: {img_fp}\<close>\<close>
  | FailedConvert path        \<comment> \<open>warning: \<^verbatim>\<open>Failed to convert image: {img_fp}\<close>\<close>
  | Converted path            \<comment> \<open>info: \<^verbatim>\<open>Converted image: {img_fp}\<close>\<close>

text \<open>
  What the operating system does to a write on a path: it refuses to open the
  file for writing (permission denied); or it opens the file and the write then
  fails (no space left, an input/output error), after which the file can be
  removed; or the write fails and the file cannot be removed either.
\<close>

datatype fault = CannotOpen | CannotWrite | CannotWriteNorRemove

text \<open>
  The state the program acts on: the file system, the sequence of paths that were
  opened for writing so far, the log, and the faults of the operating system,
  which the program does not control.
\<close>

record world =
  files :: "path \<rightharpoonup> node"
  writes :: "path list"
  logged :: "log_entry list"
  faults :: "path \<Rightarrow> fault option"

text \<open>
  A call returns a value or raises, and leaves a world behind in both cases.
\<close>

type_synonym 'a result = "(error + 'a) \<times> world"

definition logger :: "world \<Rightarrow> log_entry \<Rightarrow> world" where
  "logger w e = w\<lparr>logged := logged w @ [e]\<rparr>"

definition Path_is_dir :: "world \<Rightarrow> path \<Rightarrow> bool" where
  "Path_is_dir w p = (case files w p of Some (Dir _) \<Rightarrow> True | _ \<Rightarrow> False)"

definition Path_is_file :: "world \<Rightarrow> path \<Rightarrow> bool" where
  "Path_is_file w p = (case files w p of Some (File _) \<Rightarrow> True | _ \<Rightarrow> False)"

definition os_path_isdir :: "world \<Rightarrow> path \<Rightarrow> bool" where
  "os_path_isdir w p = Path_is_dir w p"

definition os_listdir :: "world \<Rightarrow> path \<Rightarrow> string list" where
  "os_listdir w p = (case files w p of Some (Dir names) \<Rightarrow> names | _ \<Rightarrow> [])"

text \<open>
  \<^verbatim>\<open>open(filename, "w+b")\<close>: the file is created in its directory, or truncated,
  unless the operating system refuses.
\<close>

definition open_for_writing :: "world \<Rightarrow> path \<Rightarrow> error + world" where
  "open_for_writing w fp =
     (case files w fp of
        Some (Dir _) \<Rightarrow> Inl IsADirectoryError
      | Some (File _) \<Rightarrow>
          if faults w fp = Some CannotOpen then Inl PermissionError
          else Inr (w\<lparr>files := (files w)(fp \<mapsto> File Undecodable), writes := writes w @ [fp]\<rparr>)
      | None \<Rightarrow>
          if fp = [] then Inl FileNotFoundError
          else (case files w (butlast fp) of
                  None \<Rightarrow> Inl FileNotFoundError
                | Some (File _) \<Rightarrow> Inl NotADirectoryError
                | Some (Dir names) \<Rightarrow>
                    if faults w fp = Some CannotOpen then Inl PermissionError
                    else Inr (w\<lparr>files := (files w)(butlast fp \<mapsto> Dir (names @ [last fp]),
                                                      fp \<mapsto> File Undecodable),
                                writes := writes w @ [fp]\<rparr>)))"

definition put_content :: "world \<Rightarrow> path \<Rightarrow> content \<Rightarrow> world" where
  "put_content w fp c = w\<lparr>files := (files w)(fp \<mapsto> File c)\<rparr>"

text \<open>\<^verbatim>\<open>remove(filename)\<close>: the file leaves the file system and its directory.\<close>

definition remove_file :: "world \<Rightarrow> path \<Rightarrow> world" where
  "remove_file w fp =
     w\<lparr>files :=
         (case files w (butlast fp) of
            Some (Dir names) \<Rightarrow>
              if fp = [] then (files w)(fp := None)
              else (files w)(butlast fp \<mapsto> Dir (removeAll (last fp) names), fp := None)
          | _ \<Rightarrow> (files w)(fp := None))\<rparr>"

section \<open>The image libraries\<close>

text \<open>
  The program calls Pillow and OpenCV; their source is not part of the repository.
  The definitions of this section state how the calls behave on the data the
  program passes: which call raises which exception, what size, mode and format
  the result has, and which file is written. Pixel values, metadata other than
  the orientation, the encoders of other formats, and failures of the operating
  system on reading are left out.
\<close>

subsection \<open>Pillow\<close>

text \<open>
  \<^verbatim>\<open>Image.open\<close> raises on a missing path, a directory, and a file it cannot
  identify.
\<close>

definition Image_open :: "world \<Rightarrow> path \<Rightarrow> error + image" where
  "Image_open w fp =
     (case files w fp of
        None \<Rightarrow> Inl FileNotFoundError
      | Some (Dir _) \<Rightarrow> Inl IsADirectoryError
      | Some (File Undecodable) \<Rightarrow> Inl UnidentifiedImageError
      | Some (File (Encoded _ im)) \<Rightarrow> Inr im)"

text \<open>\<^verbatim>\<open>Image.resize\<close> refuses a size below one pixel (\<^verbatim>\<open>height and width must be > 0\<close>).\<close>

definition Image_resize :: "image \<Rightarrow> int \<times> int \<Rightarrow> error + image" where
  "Image_resize im sz =
     (if fst sz < 1 \<or> snd sz < 1 then Inl ValueError
      else Inr (im\<lparr>width := nat (fst sz), height := nat (snd sz)\<rparr>))"

definition Image_convert :: "image \<Rightarrow> string \<Rightarrow> image" where
  "Image_convert im m = im\<lparr>mode := m\<rparr>"

text \<open>
  The registries of \<^verbatim>\<open>Image.save\<close>, restricted to the two formats: \<^verbatim>\<open>SAVE\<close> maps a
  format identifier to its encoder, \<^verbatim>\<open>EXTENSION\<close> a file extension to a format.
  The JPEG plugin registers under the identifier \<^verbatim>\<open>JPEG\<close> only.
\<close>

definition SAVE :: "string \<Rightarrow> img_format option" where
  "SAVE f = (if f = ''PNG'' then Some PNG else if f = ''JPEG'' then Some JPEG else None)"

definition EXTENSION :: "string \<Rightarrow> img_format option" where
  "EXTENSION ext =
     (if ext = ''.png'' \<or> ext = ''.apng'' then Some PNG
      else if ext \<in> set [''.jfif'', ''.jpe'', ''.jpg'', ''.jpeg''] then Some JPEG
      else None)"

text \<open>The modes each encoder writes; any other mode is an \<^verbatim>\<open>OSError\<close>.\<close>

definition writable_modes :: "img_format \<Rightarrow> string list" where
  "writable_modes f =
     (case f of
        JPEG \<Rightarrow> [''1'', ''L'', ''RGB'', ''RGBX'', ''CMYK'', ''YCbCr'']
      | PNG \<Rightarrow> [''1'', ''L'', ''LA'', ''I'', ''I;16'', ''P'', ''RGB'', ''RGBA''])"

text \<open>
  \<^verbatim>\<open>im.save(fp, format=None, quality=..)\<close>: the encoder is looked up first (by the
  format given, else by the extension), then the file is opened for writing, then
  the encoder runs. When the encoder fails (a mode it does not write, or a fault of
  the operating system), a file that \<^verbatim>\<open>save\<close> created is removed if it can be, and
  a file that existed stays truncated. The quality changes the encoded bytes
  only, not the format, size or mode that a decoder reads back. The metadata is
  written only when it is passed to \<^verbatim>\<open>save\<close>, which the program never does, so the
  file written has no orientation.
\<close>

definition Image_save ::
  "world \<Rightarrow> image \<Rightarrow> path \<Rightarrow> string option \<Rightarrow> int option \<Rightarrow> unit result" where
  "Image_save w im fp fmt quality =
     (case (case fmt of
              None \<Rightarrow>
                (case EXTENSION (str_lower (splitext_ext (Path_name fp))) of
                   None \<Rightarrow> Inl ValueError
                 | Some enc \<Rightarrow> Inr enc)
            | Some f \<Rightarrow>
                (case SAVE (str_upper f) of
                   None \<Rightarrow> Inl (KeyError (str_upper f))
                 | Some enc \<Rightarrow> Inr enc)) of
        Inl e \<Rightarrow> (Inl e, w)
      | Inr enc \<Rightarrow>
          (case open_for_writing w fp of
             Inl e \<Rightarrow> (Inl e, w)
           | Inr w1 \<Rightarrow>
               if mode im \<in> set (writable_modes enc) \<and> faults w fp = None
               then (Inr (), put_content w1 fp (Encoded enc (im\<lparr>orientation := 1\<rparr>)))
               else (Inl OSError,
                     if files w fp = None \<and> faults w fp \<noteq> Some CannotWriteNorRemove
                     then w else w1)))"

subsection \<open>OpenCV and the super-resolution model\<close>

text \<open>
  \<^verbatim>\<open>cv2.imread\<close> returns \<^verbatim>\<open>None\<close> for whatever it cannot read; it does not raise.
  With the default flags it applies the EXIF orientation, so that for the
  orientations 5 to 8 its rows are the stored width and its columns the stored
  height.
\<close>

definition cv2_imread :: "world \<Rightarrow> path \<Rightarrow> mat option" where
  "cv2_imread w fp =
     (case files w fp of
        Some (File (Encoded _ im)) \<Rightarrow>
          Some (if transposes (orientation im)
                then \<lparr>rows = width im, cols = height im\<rparr>
                else \<lparr>rows = height im, cols = width im\<rparr>)
      | _ \<Rightarrow> None)"

text \<open>
  The constructor loads \<^verbatim>\<open>FSRCNN_x2.pb\<close> and calls \<^verbatim>\<open>setModel("fsrcnn", 2)\<close>:
  the model doubles both dimensions. On an empty input \<^verbatim>\<open>upsample\<close> raises.
\<close>

definition sr_scale :: nat where
  "sr_scale = 2"

definition sr_upsample :: "mat option \<Rightarrow> error + mat" where
  "sr_upsample img =
     (case img of
        None \<Rightarrow> Inl Cv2Error
      | Some m \<Rightarrow> Inr \<lparr>rows = sr_scale * rows m, cols = sr_scale * cols m\<rparr>)"

text \<open>
  \<^verbatim>\<open>cv2.imwrite\<close> raises when no encoder knows the extension. When the file cannot
  be opened it returns \<^verbatim>\<open>False\<close> and writes nothing. When the file opens and the
  write fails it returns \<^verbatim>\<open>False\<close> and removes the file, which stays behind empty
  if it cannot be removed. It writes no metadata.
\<close>

definition cv2_encoder :: "string \<Rightarrow> img_format option" where
  "cv2_encoder ext =
     (if ext = ''.png'' then Some PNG
      else if ext \<in> set [''.jpeg'', ''.jpg'', ''.jpe''] then Some JPEG
      else None)"

definition cv2_imwrite :: "world \<Rightarrow> path \<Rightarrow> mat \<Rightarrow> bool result" where
  "cv2_imwrite w fp m =
     (case cv2_encoder (str_lower (cv2_ext (Path_name fp))) of
        None \<Rightarrow> (Inl Cv2Error, w)
      | Some enc \<Rightarrow>
          (case open_for_writing w fp of
             Inl e \<Rightarrow> (Inr False, w)
           | Inr w1 \<Rightarrow>
               (case faults w fp of
                  Some CannotOpen \<Rightarrow> (Inr False, w)
                | Some CannotWrite \<Rightarrow> (Inr False, remove_file w1 fp)
                | Some CannotWriteNorRemove \<Rightarrow> (Inr False, w1)
                | None \<Rightarrow>
                    (Inr True,
                     put_content w1 fp
                       (Encoded enc \<lparr>width = cols m, height = rows m, mode = ''RGB'',
                                     orientation = 1\<rparr>)))))"

subsection \<open>Python numbers\<close>

text \<open>
  A finite Python float is the rational it denotes. \<open>round_double\<close> rounds a
  rational to the nearest IEEE 754 double, ties to even: 53 significant bits, the
  exponent of the last bit not below \<open>-1074\<close>; a result of \<open>2 ^ 1024\<close> or more has
  overflowed.
\<close>

definition ilog2 :: "rat \<Rightarrow> int" where
  "ilog2 a =
     (let (n, d) = quotient_of a; k = bitlen n - bitlen d
      in if 2 powi k \<le> a then k else k - 1)"

definition round_half_even :: "rat \<Rightarrow> int" where
  "round_half_even y =
     (let f = \<lfloor>y\<rfloor>; d = y - of_int f
      in if d < 1 / 2 then f else if 1 / 2 < d then f + 1 else if even f then f else f + 1)"

definition round_double :: "rat \<Rightarrow> error + rat" where
  "round_double x =
     (if x = 0 then Inr 0
      else let a = \<bar>x\<bar>; q = max (ilog2 a - 52) (- 1074);
               r = of_int (round_half_even (a / 2 powi q)) * 2 powi q
           in if 2 powi 1024 \<le> r then Inl OverflowError else Inr (sgn x * r))"

text \<open>\<^verbatim>\<open>a / b\<close> on two ints: the quotient, correctly rounded.\<close>

definition int_truediv :: "int \<Rightarrow> int \<Rightarrow> error + rat" where
  "int_truediv a b =
     (if b = 0 then Inl ZeroDivisionError else round_double (of_int a / of_int b))"

text \<open>
  \<^verbatim>\<open>a * x\<close> on an int and a float: the int is converted, the product is rounded.
  A product that overflows is infinite, and \<^verbatim>\<open>int\<close> of it raises \<^verbatim>\<open>OverflowError\<close>.
\<close>

definition int_mul_float :: "int \<Rightarrow> rat \<Rightarrow> error + rat" where
  "int_mul_float a x =
     (case round_double (of_int a) of
        Inl e \<Rightarrow> Inl e
      | Inr fa \<Rightarrow> round_double (fa * x))"

text \<open>\<^verbatim>\<open>int(x)\<close> truncates towards zero.\<close>

definition py_int :: "rat \<Rightarrow> int" where
  "py_int x = (if 0 \<le> x then \<lfloor>x\<rfloor> else \<lceil>x\<rceil>)"

section \<open>The class ImgProcessor\<close>

text \<open>
  \<^verbatim>\<open>list_image_fps\<close>: the names of the directory whose lowered suffix is in
  \<open>valid_exts\<close>, each joined to the directory.
\<close>

definition list_image_fps :: "world \<Rightarrow> path \<Rightarrow> string list \<Rightarrow> path list \<times> world" where
  "list_image_fps w dir_path valid_exts =
     (if \<not> Path_is_dir w dir_path then ([], logger w (NotValidDirectory dir_path))
      else (map (\<lambda>fn. dir_path @ [fn])
              (filter (\<lambda>fn. str_lower (Path_suffix [fn]) \<in> set valid_exts)
                 (os_listdir w dir_path)), w))"

text \<open>
  \<^verbatim>\<open>get_image_size_from_fp\<close>: the dictionary \<^verbatim>\<open>{"width": .., "height": ..}\<close> is
  \<open>Some (width, height)\<close>, the empty dictionary is \<open>None\<close>.
\<close>

definition get_image_size_from_fp :: "world \<Rightarrow> path \<Rightarrow> (nat \<times> nat) option result" where
  "get_image_size_from_fp w img_fp =
     (if \<not> Path_is_file w img_fp then (Inr None, logger w (NotValidFile img_fp))
      else (case Image_open w img_fp of
              Inl e \<Rightarrow> (Inl e, w)
            | Inr img \<Rightarrow> (Inr (Some (width img, height img)), w)))"

definition upscale_image :: "world \<Rightarrow> path \<Rightarrow> path \<Rightarrow> bool result" where
  "upscale_image w img_input_fp img_output_fp =
     (case sr_upsample (cv2_imread w img_input_fp) of
        Inl e \<Rightarrow> (Inl e, w)
      | Inr result \<Rightarrow>
          (case cv2_imwrite w img_output_fp result of
             (Inl e, w') \<Rightarrow> (Inl e, w')
           | (Inr _, w') \<Rightarrow> (Inr True, w')))"

definition resize_down_image_height :: "world \<Rightarrow> path \<Rightarrow> path \<Rightarrow> int \<Rightarrow> bool result" where
  "resize_down_image_height w img_input_fp img_output_fp img_height =
     (case Image_open w img_input_fp of
        Inl e \<Rightarrow> (Inl e, w)
      | Inr img \<Rightarrow>
          if int (height img) < img_height
          then (Inr False, logger w (HeightTooSmall (height img) img_height))
          else (case int_truediv img_height (int (height img)) of
                  Inl e \<Rightarrow> (Inl e, w)
                | Inr scaling_factor \<Rightarrow>
                    (case int_mul_float (int (width img)) scaling_factor of
                       Inl e \<Rightarrow> (Inl e, w)
                     | Inr x \<Rightarrow>
                         (let new_width = py_int x
                          in case Image_resize img (new_width, img_height) of
                               Inl e \<Rightarrow> (Inl e, w)
                             | Inr resized_image \<Rightarrow>
                                 (case Image_save w resized_image img_output_fp None None of
                                    (Inl e, w') \<Rightarrow> (Inl e, w')
                                  | (Inr _, w') \<Rightarrow> (Inr True, w'))))))"

definition convert_img_to_jpg :: "world \<Rightarrow> path \<Rightarrow> path \<Rightarrow> int \<Rightarrow> bool result" where
  "convert_img_to_jpg w img_input_fp img_output_fp quality =
     (case Image_open w img_input_fp of
        Inl e \<Rightarrow> (Inl e, w)
      | Inr png_image \<Rightarrow>
          (let jpg_image = Image_convert png_image ''RGB''
           in case Image_save w jpg_image img_output_fp (Some ''JPG'') (Some quality) of
                (Inl e, w') \<Rightarrow> (Inl e, w')
              | (Inr _, w') \<Rightarrow> (Inr True, w')))"

subsection \<open>The loop of process_supermarket_images\<close>

text \<open>Lines 101 to 107: the upscale branch, on the size the first probe returned.\<close>

definition upscale_step :: "world \<Rightarrow> path \<Rightarrow> int \<Rightarrow> nat \<times> nat \<Rightarrow> unit result" where
  "upscale_step w img_fp min_height img_size =
     (let current_height = snd img_size
      in if int current_height < min_height
         then (case upscale_image w img_fp img_fp of
                 (Inl e, w') \<Rightarrow> (Inl e, w')
               | (Inr upscaled_img, w') \<Rightarrow>
                   if \<not> upscaled_img then (Inr (), logger w' (FailedUpscale img_fp))
                   else (Inr (), logger w' (Upscaled img_fp)))
         else (Inr (), w))"

text \<open>Lines 115 to 121: the downscale branch, on the size the second probe returned.\<close>

definition downscale_step :: "world \<Rightarrow> path \<Rightarrow> int \<Rightarrow> nat \<times> nat \<Rightarrow> unit result" where
  "downscale_step w img_fp min_height img_size =
     (let current_height = snd img_size
      in if min_height < int current_height
         then (case resize_down_image_height w img_fp img_fp min_height of
                 (Inl e, w') \<Rightarrow> (Inl e, w')
               | (Inr resized_down, w') \<Rightarrow>
                   if \<not> resized_down then (Inr (), logger w' (FailedResize img_fp))
                   else (Inr (), logger w' (Resized img_fp)))
         else (Inr (), w))"

text \<open>Lines 124 to 129: the conversion branch, on the suffix of the path.\<close>

definition convert_step :: "world \<Rightarrow> path \<Rightarrow> unit result" where
  "convert_step w img_fp =
     (if Path_suffix img_fp \<in> set [''.png'', ''.jpeg'']
      then (case convert_img_to_jpg w img_fp img_fp 90 of
              (Inl e, w') \<Rightarrow> (Inl e, w')
            | (Inr converted, w') \<Rightarrow>
                if \<not> converted then (Inr (), logger w' (FailedConvert img_fp))
                else (Inr (), logger w' (Converted img_fp)))
      else (Inr (), w))"

text \<open>
  The body of the loop for one path: \<^verbatim>\<open>continue\<close> returns normally, an exception
  of a call leaves the body with it.
\<close>

definition process_image :: "world \<Rightarrow> path \<Rightarrow> int \<Rightarrow> unit result" where
  "process_image w img_fp min_height =
     (case get_image_size_from_fp w img_fp of
        (Inl e, w1) \<Rightarrow> (Inl e, w1)
      | (Inr None, w1) \<Rightarrow> (Inr (), w1)
      | (Inr (Some img_size), w1) \<Rightarrow>
          (case upscale_step w1 img_fp min_height img_size of
             (Inl e, w2) \<Rightarrow> (Inl e, w2)
           | (Inr _, w2) \<Rightarrow>
               (case get_image_size_from_fp w2 img_fp of
                  (Inl e, w3) \<Rightarrow> (Inl e, w3)
                | (Inr None, w3) \<Rightarrow> (Inr (), w3)
                | (Inr (Some img_size'), w3) \<Rightarrow>
                    (case downscale_step w3 img_fp min_height img_size' of
                       (Inl e, w4) \<Rightarrow> (Inl e, w4)
                     | (Inr _, w4) \<Rightarrow> convert_step w4 img_fp))))"

text \<open>The loop: the paths in order, stopped by the first exception.\<close>

fun process_images :: "world \<Rightarrow> path list \<Rightarrow> int \<Rightarrow> unit result" where
  "process_images w [] min_height = (Inr (), w)"
| "process_images w (img_fp # img_fps) min_height =
     (case process_image w img_fp min_height of
        (Inl e, w') \<Rightarrow> (Inl e, w')
      | (Inr _, w') \<Rightarrow> process_images w' img_fps min_height)"

definition process_supermarket_images :: "world \<Rightarrow> path \<Rightarrow> int \<Rightarrow> bool result" where
  "process_supermarket_images w img_dir min_height =
     (if \<not> os_path_isdir w img_dir
      then (Inr False, logger w (InvalidDirectoryPath img_dir))
      else (case list_image_fps w img_dir [''.png'', ''.jpg''] of
              (img_fps, w1) \<Rightarrow>
                (case process_images w1 img_fps min_height of
                   (Inl e, w2) \<Rightarrow> (Inl e, w2)
                 | (Inr _, w2) \<Rightarrow> (Inr True, w2))))"

section \<open>Files that need no processing\<close>

text \<open>
  A path is settled when the loop body changes nothing on it: it is no regular
  file; or it holds an image under a suffix that does not trigger the conversion,
  and the image has exactly the minimum height, or is below it and cannot be
  opened for writing by the upscaler.
\<close>

definition settled :: "world \<Rightarrow> int \<Rightarrow> path \<Rightarrow> bool" where
  "settled w min_height fp =
     (case files w fp of
        Some (File (Encoded f img)) \<Rightarrow>
          Path_suffix fp \<notin> set [''.png'', ''.jpeg''] \<and>
          (int (height img) = min_height \<or>
           int (height img) < min_height \<and> faults w fp = Some CannotOpen \<and>
           cv2_encoder (str_lower (cv2_ext (Path_name fp))) \<noteq> None)
      | Some (File Undecodable) \<Rightarrow> False
      | _ \<Rightarrow> True)"

text \<open>
  An image at the path, if there is one, has at least the minimum height, or
  OpenCV reads at least half the minimum height of rows from it.
\<close>

definition reaches_minimum :: "world \<Rightarrow> int \<Rightarrow> path \<Rightarrow> bool" where
  "reaches_minimum w min_height fp =
     (case files w fp of
        Some (File (Encoded f img)) \<Rightarrow>
          min_height \<le> int (height img) \<or>
          min_height \<le> 2 * int (if transposes (orientation img) then width img else height img)
      | _ \<Rightarrow> True)"

text \<open>
  A directory is kept from one world to another when it is still a directory and
  has no name that it did not have.
\<close>

definition dir_kept :: "world \<Rightarrow> world \<Rightarrow> path \<Rightarrow> bool" where
  "dir_kept w w' d =
     (case files w d of
        Some (Dir names) \<Rightarrow>
          (case files w' d of Some (Dir names') \<Rightarrow> set names' \<subseteq> set names | _ \<Rightarrow> False)
      | _ \<Rightarrow> True)"

section \<open>Example directories\<close>

text \<open>A directory with a subdirectory named like an image and an upper-case name.\<close>

definition world_sub :: world where
  "world_sub =
     \<lparr>files = [[''shop''] \<mapsto> Dir [''thumbs.png'', ''A.PNG''],
               [''shop'', ''thumbs.png''] \<mapsto> Dir [],
               [''shop'', ''A.PNG''] \<mapsto> File (Encoded PNG \<lparr>width = 10, height = 400, mode = ''RGB'', orientation = 1\<rparr>)],
      writes = [], logged = [], faults = (\<lambda>fp. None)\<rparr>"

text \<open>A directory with one PNG image at the default minimum height.\<close>

definition world_png :: world where
  "world_png =
     \<lparr>files = [[''shop''] \<mapsto> Dir [''logo.png''],
               [''shop'', ''logo.png''] \<mapsto> File (Encoded PNG \<lparr>width = 100, height = 400, mode = ''RGBA'', orientation = 1\<rparr>)],
      writes = [], logged = [], faults = (\<lambda>fp. None)\<rparr>"

text \<open>A directory whose first file is no image and whose second file is too tall.\<close>

definition world_bad :: world where
  "world_bad =
     \<lparr>files = [[''shop''] \<mapsto> Dir [''bad.jpg'', ''good.jpg''],
               [''shop'', ''bad.jpg''] \<mapsto> File Undecodable,
               [''shop'', ''good.jpg''] \<mapsto> File (Encoded JPEG \<lparr>width = 800, height = 1600, mode = ''RGB'', orientation = 1\<rparr>)],
      writes = [], logged = [], faults = (\<lambda>fp. None)\<rparr>"

text \<open>A directory with one small JPEG image.\<close>

definition world_small :: world where
  "world_small =
     \<lparr>files = [[''shop''] \<mapsto> Dir [''small.jpg''],
               [''shop'', ''small.jpg''] \<mapsto> File (Encoded JPEG \<lparr>width = 50, height = 100, mode = ''RGB'', orientation = 1\<rparr>)],
      writes = [], logged = [], faults = (\<lambda>fp. None)\<rparr>"

text \<open>A directory with a JPEG image of half the default minimum height and a subdirectory.\<close>

definition world_half :: world where
  "world_half =
     \<lparr>files = [[''shop''] \<mapsto> Dir [''half.jpg'', ''old.jpg''],
               [''shop'', ''half.jpg''] \<mapsto> File (Encoded JPEG \<lparr>width = 100, height = 200, mode = ''RGB'', orientation = 1\<rparr>),
               [''shop'', ''old.jpg''] \<mapsto> Dir []],
      writes = [], logged = [], faults = (\<lambda>fp. None)\<rparr>"


text \<open>A directory with one small JPEG image that is stored turned by a quarter.\<close>

definition world_turned :: world where
  "world_turned =
     \<lparr>files = [[''shop''] \<mapsto> Dir [''turned.jpg''],
               [''shop'', ''turned.jpg''] \<mapsto> File (Encoded JPEG \<lparr>width = 30, height = 100, mode = ''RGB'', orientation = 6\<rparr>)],
      writes = [], logged = [], faults = (\<lambda>fp. None)\<rparr>"

text \<open>The directory with one small JPEG image, on a device with no space left.\<close>

definition world_full :: world where
  "world_full = world_small\<lparr>faults := (\<lambda>fp. Some CannotWrite)\<rparr>"

text \<open>The same, where the file cannot be removed either.\<close>

definition world_stuck :: world where
  "world_stuck = world_small\<lparr>faults := (\<lambda>fp. Some CannotWriteNorRemove)\<rparr>"

text \<open>A directory with a small JPEG image under a name that OpenCV has no encoder for.\<close>

definition world_dat :: world where
  "world_dat =
     \<lparr>files = [[''shop''] \<mapsto> Dir [''scan.dat''],
               [''shop'', ''scan.dat''] \<mapsto> File (Encoded JPEG \<lparr>width = 50, height = 100, mode = ''RGB'', orientation = 1\<rparr>)],
      writes = [], logged = [], faults = (\<lambda>fp. None)\<rparr>"

text \<open>A directory with one JPEG image of one pixel by 800.\<close>

definition world_strip :: world where
  "world_strip =
     \<lparr>files = [[''shop''] \<mapsto> Dir [''strip.jpg''],
               [''shop'', ''strip.jpg''] \<mapsto> File (Encoded JPEG \<lparr>width = 1, height = 800, mode = ''RGB'', orientation = 1\<rparr>)],
      writes = [], logged = [], faults = (\<lambda>fp. None)\<rparr>"

section \<open>Properties\<close>

subsection \<open>Suffixes\<close>

lemma str_lower_exts:
  "str_lower ''.png'' = ''.png''" "str_lower ''.jpg'' = ''.jpg''" "str_lower ''.jpeg'' = ''.jpeg''"
  by code_simp+

lemma Path_suffix_snoc: "Path_suffix (dir_path @ [fn]) = suffix_of_name fn"
  by (simp add: Path_suffix_def Path_name_def)

lemma Path_suffix_single: "Path_suffix [fn] = suffix_of_name fn"
  by (simp add: Path_suffix_def Path_name_def)

subsection \<open>The scanner\<close>

text \<open>
  Claim C8 as the specification states it, refuted: the scanner returns the
  subdirectory \<^verbatim>\<open>thumbs.png\<close>, which is no regular file, and with the accepted
  set \<^verbatim>\<open>[".PNG"]\<close> it does not return the regular file \<^verbatim>\<open>A.PNG\<close>.
\<close>

theorem list_image_fps_subdirectory_counterexample:
  "fst (list_image_fps world_sub [''shop''] [''.png'', ''.jpg'']) =
     [[''shop'', ''thumbs.png''], [''shop'', ''A.PNG'']]
   \<and> \<not> Path_is_file world_sub [''shop'', ''thumbs.png'']
   \<and> Path_is_file world_sub [''shop'', ''A.PNG'']
   \<and> fst (list_image_fps world_sub [''shop''] [''.PNG'']) = []"
  by code_simp

text \<open>
  Claim C8, amended: for an existing directory the scanner returns exactly the
  names of the directory, of whatever kind, whose lower-cased suffix is a member
  of the accepted set, each joined to the directory, and leaves the world as it
  is; for a path that is no directory it logs an error and returns the empty list.
\<close>

theorem list_image_fps_names:
  "(Path_is_dir w dir_path \<longrightarrow>
      snd (list_image_fps w dir_path valid_exts) = w \<and>
      set (fst (list_image_fps w dir_path valid_exts)) =
        {dir_path @ [fn] |fn. fn \<in> set (os_listdir w dir_path)
                              \<and> str_lower (suffix_of_name fn) \<in> set valid_exts})
   \<and> (\<not> Path_is_dir w dir_path \<longrightarrow>
      list_image_fps w dir_path valid_exts = ([], logger w (NotValidDirectory dir_path)))"
  by (auto simp: list_image_fps_def Path_suffix_single)

theorem list_image_fps_names_witness:
  "Path_is_dir world_sub [''shop''] \<and> \<not> Path_is_dir world_sub [''market'']
   \<and> set (fst (list_image_fps world_sub [''shop''] [''.png'']))
       = {[''shop''] @ [fn] |fn. fn \<in> set (os_listdir world_sub [''shop''])
                              \<and> str_lower (suffix_of_name fn) \<in> set [''.png'']}
   \<and> list_image_fps world_sub [''market''] [''.png'']
       = ([], logger world_sub (NotValidDirectory [''market'']))"
proof -
  have d: "Path_is_dir world_sub [''shop'']" by code_simp
  have n: "\<not> Path_is_dir world_sub [''market'']" by code_simp
  from d n list_image_fps_names [of world_sub "[''shop'']" "[''.png'']"]
    list_image_fps_names [of world_sub "[''market'']" "[''.png'']"]
  show ?thesis by blast
qed

text \<open>
  Claim C10: a name whose suffix is an upper- or mixed-case variant of \<^verbatim>\<open>.png\<close> or
  \<^verbatim>\<open>.jpg\<close> is returned by the scanner that the pipeline calls, and the conversion
  branch does nothing on its path, in any world.
\<close>

theorem uppercase_suffix_listed_not_converted:
  assumes low: "str_lower (suffix_of_name fn) \<in> {''.png'', ''.jpg''}"
    and var: "suffix_of_name fn \<noteq> str_lower (suffix_of_name fn)"
    and dir: "Path_is_dir w dir_path"
    and fn: "fn \<in> set (os_listdir w dir_path)"
  shows "dir_path @ [fn] \<in> set (fst (list_image_fps w dir_path [''.png'', ''.jpg'']))
       \<and> convert_step w' (dir_path @ [fn]) = (Inr (), w')"
proof -
  have listed: "dir_path @ [fn] \<in> set (fst (list_image_fps w dir_path [''.png'', ''.jpg'']))"
    using low dir fn by (auto simp: list_image_fps_def Path_suffix_single)
  have "suffix_of_name fn \<noteq> ''.png''"
    using var str_lower_exts(1) by auto
  moreover have "suffix_of_name fn \<noteq> ''.jpeg''"
    using low str_lower_exts(3) by auto
  ultimately have "convert_step w' (dir_path @ [fn]) = (Inr (), w')"
    by (simp add: convert_step_def Path_suffix_snoc)
  with listed show ?thesis by simp
qed

theorem uppercase_suffix_listed_not_converted_witness:
  "str_lower (suffix_of_name ''A.PNG'') \<in> {''.png'', ''.jpg''}
   \<and> suffix_of_name ''A.PNG'' \<noteq> str_lower (suffix_of_name ''A.PNG'')
   \<and> Path_is_dir world_sub [''shop'']
   \<and> ''A.PNG'' \<in> set (os_listdir world_sub [''shop''])
   \<and> [''shop''] @ [''A.PNG''] \<in> set (fst (list_image_fps world_sub [''shop''] [''.png'', ''.jpg'']))
   \<and> convert_step world_sub ([''shop''] @ [''A.PNG'']) = (Inr (), world_sub)"
proof -
  have 1: "str_lower (suffix_of_name ''A.PNG'') \<in> {''.png'', ''.jpg''}" by code_simp
  have 2: "suffix_of_name ''A.PNG'' \<noteq> str_lower (suffix_of_name ''A.PNG'')" by code_simp
  have 3: "Path_is_dir world_sub [''shop'']" by code_simp
  have 4: "''A.PNG'' \<in> set (os_listdir world_sub [''shop''])" by code_simp
  from 1 2 3 4 uppercase_suffix_listed_not_converted [OF 1 2 3 4, of world_sub]
  show ?thesis by simp
qed

subsection \<open>The downscaler\<close>

text \<open>
  Claim C6: when the target height is greater than the height of the input image,
  the downscaler returns \<^verbatim>\<open>False\<close>, opens no file for writing and leaves every
  file as it is.
\<close>

theorem resize_down_too_small:
  assumes "Image_open w img_input_fp = Inr img" and "int (height img) < img_height"
  shows "fst (resize_down_image_height w img_input_fp img_output_fp img_height) = Inr False
       \<and> files (snd (resize_down_image_height w img_input_fp img_output_fp img_height)) = files w
       \<and> writes (snd (resize_down_image_height w img_input_fp img_output_fp img_height)) = writes w"
  using assms by (simp add: resize_down_image_height_def logger_def)

theorem resize_down_too_small_witness:
  "Image_open world_png [''shop'', ''logo.png''] = Inr \<lparr>width = 100, height = 400, mode = ''RGBA'', orientation = 1\<rparr>
   \<and> int (height \<lparr>width = 100, height = 400, mode = ''RGBA'', orientation = 1\<rparr>) < 800
   \<and> fst (resize_down_image_height world_png [''shop'', ''logo.png''] [''shop'', ''logo.png''] 800)
        = Inr False
   \<and> files (snd (resize_down_image_height world_png [''shop'', ''logo.png''] [''shop'', ''logo.png''] 800))
        = files world_png
   \<and> writes (snd (resize_down_image_height world_png [''shop'', ''logo.png''] [''shop'', ''logo.png''] 800))
        = writes world_png"
proof -
  have 1: "Image_open world_png [''shop'', ''logo.png'']
     = Inr \<lparr>width = 100, height = 400, mode = ''RGBA'', orientation = 1\<rparr>"
    by (simp add: Image_open_def world_png_def)
  have 2: "int (height \<lparr>width = 100, height = 400, mode = ''RGBA'', orientation = 1\<rparr>) < 800" by simp
  from 1 2 resize_down_too_small [OF 1 2, of "[''shop'', ''logo.png'']"] show ?thesis by simp
qed

subsection \<open>What the calls log\<close>

lemma logged_open_for_writing: "open_for_writing w fp = Inr w1 \<Longrightarrow> logged w1 = logged w"
  by (auto simp: open_for_writing_def split: option.splits node.splits if_splits)

lemma logged_Image_save: "Image_save w im fp fmt q = (r, w') \<Longrightarrow> logged w' = logged w"
  by (auto simp: Image_save_def put_content_def split: option.splits sum.splits if_splits
      dest: logged_open_for_writing)

lemma logged_cv2_imwrite: "cv2_imwrite w fp m = (r, w') \<Longrightarrow> logged w' = logged w"
  by (auto simp: cv2_imwrite_def put_content_def remove_file_def
      split: option.splits sum.splits fault.splits dest: logged_open_for_writing)

lemma upscale_image_returns:
  "upscale_image w i o' = (r, w') \<Longrightarrow> (r = Inr True \<or> (\<exists>e. r = Inl e)) \<and> logged w' = logged w"
  by (auto simp: upscale_image_def split: sum.splits prod.splits dest: logged_cv2_imwrite)

lemma logged_upscale_step:
  "upscale_step w fp mh sz = (r, w') \<Longrightarrow> logged w' = logged w \<or> logged w' = logged w @ [Upscaled fp]"
  by (auto simp: upscale_step_def Let_def logger_def split: if_splits sum.splits prod.splits
      dest: upscale_image_returns)

lemma logged_resize_down:
  "resize_down_image_height w i o' h = (r, w') \<Longrightarrow>
     logged w' = logged w \<or> (\<exists>a b. logged w' = logged w @ [HeightTooSmall a b])"
  by (auto simp: resize_down_image_height_def Let_def logger_def
      split: if_splits sum.splits prod.splits dest: logged_Image_save)

lemma logged_downscale_step:
  "downscale_step w fp mh sz = (r, w') \<Longrightarrow> FailedUpscale p \<in> set (logged w') \<Longrightarrow> FailedUpscale p \<in> set (logged w)"
  by (auto simp: downscale_step_def Let_def logger_def split: if_splits sum.splits prod.splits
      dest!: logged_resize_down)

lemma logged_convert_img_to_jpg:
  "convert_img_to_jpg w i o' q = (r, w') \<Longrightarrow> logged w' = logged w"
  by (auto simp: convert_img_to_jpg_def Let_def split: sum.splits prod.splits
      dest: logged_Image_save)

lemma logged_convert_step:
  "convert_step w fp = (r, w') \<Longrightarrow> FailedUpscale p \<in> set (logged w') \<Longrightarrow> FailedUpscale p \<in> set (logged w)"
  by (auto simp: convert_step_def Let_def logger_def split: if_splits sum.splits prod.splits
      dest!: logged_convert_img_to_jpg)

lemma logged_get_image_size:
  "get_image_size_from_fp w fp = (r, w') \<Longrightarrow> FailedUpscale p \<in> set (logged w') \<Longrightarrow> FailedUpscale p \<in> set (logged w)"
  by (auto simp: get_image_size_from_fp_def logger_def split: if_splits sum.splits)

lemma logged_upscale_step':
  "upscale_step w fp mh sz = (r, w') \<Longrightarrow> FailedUpscale p \<in> set (logged w') \<Longrightarrow> FailedUpscale p \<in> set (logged w)"
  by (auto dest!: logged_upscale_step)

lemma logged_process_image:
  assumes "process_image w fp mh = (r, w')" and "FailedUpscale p \<in> set (logged w')"
  shows "FailedUpscale p \<in> set (logged w)"
  using assms unfolding process_image_def
  by (auto split: prod.splits sum.splits option.splits
      dest!: logged_convert_step logged_downscale_step logged_get_image_size logged_upscale_step')

lemma logged_process_images:
  "process_images w fps mh = (r, w') \<Longrightarrow> FailedUpscale p \<in> set (logged w')
     \<Longrightarrow> FailedUpscale p \<in> set (logged w)"
proof (induction fps arbitrary: w)
  case Nil
  then show ?case by simp
next
  case (Cons fp fps)
  then show ?case
    by (auto split: prod.splits sum.splits dest: logged_process_image)
qed

subsection \<open>The upscaler\<close>

text \<open>
  Claim C9: a call of the upscaler that returns, returns \<^verbatim>\<open>True\<close>; and the
  pipeline never logs \<^verbatim>\<open>Failed to upscale image\<close>: the message is in the log
  after a run only if it was there before.
\<close>

theorem upscale_image_never_reports_failure:
  "(upscale_image w img_input_fp img_output_fp = (Inr b, w') \<longrightarrow> b)
   \<and> (FailedUpscale p \<notin> set (logged w0)
        \<longrightarrow> FailedUpscale p \<notin> set (logged (snd (process_supermarket_images w0 img_dir min_height))))"
proof -
  have "upscale_image w img_input_fp img_output_fp = (Inr b, w') \<longrightarrow> b"
    by (auto dest: upscale_image_returns)
  moreover have "FailedUpscale p \<in> set (logged (snd (process_supermarket_images w0 img_dir min_height)))
        \<longrightarrow> FailedUpscale p \<in> set (logged w0)"
    by (auto simp: process_supermarket_images_def list_image_fps_def logger_def os_path_isdir_def
        split: if_splits prod.splits sum.splits dest: logged_process_images)
  ultimately show ?thesis by blast
qed

theorem upscale_image_never_reports_failure_witness:
  "upscale_image world_small [''shop'', ''small.jpg''] [''shop'', ''small.jpg'']
     = (Inr True, snd (upscale_image world_small [''shop'', ''small.jpg''] [''shop'', ''small.jpg'']))
   \<and> FailedUpscale [''shop'', ''small.jpg''] \<notin> set (logged world_small)
   \<and> FailedUpscale [''shop'', ''small.jpg'']
        \<notin> set (logged (snd (process_supermarket_images world_small [''shop''] 400)))"
proof -
  have "fst (upscale_image world_small [''shop'', ''small.jpg''] [''shop'', ''small.jpg'']) = Inr True"
    by code_simp
  then have 1: "upscale_image world_small [''shop'', ''small.jpg''] [''shop'', ''small.jpg'']
     = (Inr True, snd (upscale_image world_small [''shop'', ''small.jpg''] [''shop'', ''small.jpg'']))"
    by (simp add: prod_eq_iff)
  have 2: "FailedUpscale [''shop'', ''small.jpg''] \<notin> set (logged world_small)"
    by (simp add: world_small_def)
  from 1 2 upscale_image_never_reports_failure
    [of world_small "[''shop'', ''small.jpg'']" "[''shop'', ''small.jpg'']" True
        "snd (upscale_image world_small [''shop'', ''small.jpg''] [''shop'', ''small.jpg''])"
        "[''shop'', ''small.jpg'']" world_small "[''shop'']" 400]
  show ?thesis by blast
qed

subsection \<open>The format normalizer\<close>

text \<open>
  No call of the normalizer returns: the format identifier \<^verbatim>\<open>JPG\<close> has no encoder,
  so \<^verbatim>\<open>save\<close> raises before it opens the output.
\<close>

lemma convert_img_to_jpg_raises:
  "\<exists>e. convert_img_to_jpg w img_input_fp img_output_fp quality = (Inl e, w)"
proof -
  have "str_upper ''JPG'' = ''JPG''" by code_simp
  then have "Image_save w im img_output_fp (Some ''JPG'') (Some quality) = (Inl (KeyError ''JPG''), w)" for im
    by (simp add: Image_save_def SAVE_def)
  then show ?thesis
    by (simp add: convert_img_to_jpg_def split: sum.splits)
qed

text \<open>
  Claim C7, at the PNG image \<^verbatim>\<open>shop/logo.png\<close> with quality 90: the normalizer
  raises \<^verbatim>\<open>KeyError('JPG')\<close> and writes nothing, where the claim has a JPEG file
  written.
\<close>

theorem convert_img_to_jpg_png_raises:
  "convert_img_to_jpg world_png [''shop'', ''logo.png''] [''shop'', ''logo.png''] 90
     = (Inl (KeyError ''JPG''), world_png)"
proof -
  have "str_upper ''JPG'' = ''JPG''" by code_simp
  then have "Image_save w im fp (Some ''JPG'') q = (Inl (KeyError ''JPG''), w)" for w im fp q
    by (simp add: Image_save_def SAVE_def)
  moreover have "Image_open world_png [''shop'', ''logo.png'']
     = Inr \<lparr>width = 100, height = 400, mode = ''RGBA'', orientation = 1\<rparr>"
    by (simp add: Image_open_def world_png_def)
  ultimately show ?thesis
    by (simp add: convert_img_to_jpg_def)
qed

subsection \<open>A file at the minimum height\<close>

text \<open>
  Claim C5: for an image whose height equals the minimum height, neither the
  upscale branch nor the downscale branch does anything, and the loop body is the
  conversion branch alone.
\<close>

theorem height_at_minimum_untouched:
  assumes "files w img_fp = Some (File (Encoded f img))" and "int (height img) = min_height"
  shows "upscale_step w img_fp min_height (width img, height img) = (Inr (), w)
       \<and> downscale_step w img_fp min_height (width img, height img) = (Inr (), w)
       \<and> process_image w img_fp min_height = convert_step w img_fp"
  using assms
  by (simp add: upscale_step_def downscale_step_def process_image_def get_image_size_from_fp_def
      Path_is_file_def Image_open_def)

theorem height_at_minimum_untouched_witness:
  "files world_png [''shop'', ''logo.png'']
     = Some (File (Encoded PNG \<lparr>width = 100, height = 400, mode = ''RGBA'', orientation = 1\<rparr>))
   \<and> int (height \<lparr>width = 100, height = 400, mode = ''RGBA'', orientation = 1\<rparr>) = 400
   \<and> upscale_step world_png [''shop'', ''logo.png''] 400 (100, 400) = (Inr (), world_png)
   \<and> downscale_step world_png [''shop'', ''logo.png''] 400 (100, 400) = (Inr (), world_png)
   \<and> process_image world_png [''shop'', ''logo.png''] 400 = convert_step world_png [''shop'', ''logo.png'']"
proof -
  have 1: "files world_png [''shop'', ''logo.png'']
     = Some (File (Encoded PNG \<lparr>width = 100, height = 400, mode = ''RGBA'', orientation = 1\<rparr>))"
    by (simp add: world_png_def)
  have 2: "int (height \<lparr>width = 100, height = 400, mode = ''RGBA'', orientation = 1\<rparr>) = 400" by simp
  from 1 2 height_at_minimum_untouched [OF 1 2] show ?thesis by simp
qed

subsection \<open>What the downscaler returns\<close>

lemma resize_down_returns_True:
  assumes "Image_open w i = Inr img" and "resize_down_image_height w i o' h = (Inr True, w')"
  shows "\<exists>s x. int_truediv h (int (height img)) = Inr s
           \<and> int_mul_float (int (width img)) s = Inr x
           \<and> 1 \<le> py_int x \<and> 1 \<le> h \<and> h \<le> int (height img)
           \<and> Image_save w (img\<lparr>width := nat (py_int x), height := nat h\<rparr>) o' None None
               = (Inr (), w')"
  using assms
  by (auto simp: resize_down_image_height_def Image_resize_def Let_def
      split: sum.splits prod.splits if_splits)

subsection \<open>Rounding to a double\<close>


lemma round_half_even_of_int: "round_half_even (of_int j) = j"
  by (simp add: round_half_even_def)

lemma ilog2_bounds:
  assumes "0 < a"
  shows "2 powi (ilog2 a) \<le> a \<and> a < 2 powi (ilog2 a + 1)"
proof -
  obtain n d where q: "quotient_of a = (n, d)" by (cases "quotient_of a")
  then have d: "0 < d" by (rule quotient_of_denom_pos)
  from q have a: "a = of_int n / of_int d" by (rule quotient_of_div)
  with assms d have n: "0 < n" by (simp add: zero_less_divide_iff)
  define bn where "bn = bitlen n"
  define bd where "bd = bitlen d"
  from bitlen_bounds [OF n] have nb: "2 ^ nat (bn - 1) \<le> n" "n < 2 ^ nat bn"
    by (simp_all add: bn_def)
  from bitlen_bounds [OF d] have db: "2 ^ nat (bd - 1) \<le> d" "d < 2 ^ nat bd"
    by (simp_all add: bd_def)
  have bn1: "1 \<le> bn" using n by (simp add: bn_def bitlen_def floorlog_def)
  have bd1: "1 \<le> bd" using d by (simp add: bd_def bitlen_def floorlog_def)
  have pn: "(2::rat) powi (bn - 1) \<le> of_int n" "of_int n < (2::rat) powi bn"
  proof -
    have "(of_int (2 ^ nat (bn - 1)) :: rat) \<le> of_int n" using nb(1) by (simp only: of_int_le_iff)
    then show "(2::rat) powi (bn - 1) \<le> of_int n" using bn1 by (simp add: power_int_def)
    have "(of_int n :: rat) < of_int (2 ^ nat bn)" using nb(2) by (simp only: of_int_less_iff)
    then show "of_int n < (2::rat) powi bn" using bn1 by (simp add: power_int_def)
  qed
  have pd: "(2::rat) powi (bd - 1) \<le> of_int d" "of_int d < (2::rat) powi bd"
  proof -
    have "(of_int (2 ^ nat (bd - 1)) :: rat) \<le> of_int d" using db(1) by (simp only: of_int_le_iff)
    then show "(2::rat) powi (bd - 1) \<le> of_int d" using bd1 by (simp add: power_int_def)
    have "(of_int d :: rat) < of_int (2 ^ nat bd)" using db(2) by (simp only: of_int_less_iff)
    then show "of_int d < (2::rat) powi bd" using bd1 by (simp add: power_int_def)
  qed
  have dpos: "(0::rat) < of_int d" using d by simp
  have lo: "(2::rat) powi (bn - bd - 1) \<le> a"
  proof -
    have "(2::rat) powi (bn - bd - 1) * of_int d \<le> 2 powi (bn - bd - 1) * 2 powi bd"
      using pd(2) by (intro mult_left_mono) simp_all
    also have "\<dots> = 2 powi (bn - 1)"
      by (simp add: power_int_add [symmetric])
    also have "\<dots> \<le> of_int n" by (rule pn(1))
    finally show ?thesis using dpos by (simp add: a pos_le_divide_eq)
  qed
  have hi: "a < (2::rat) powi (bn - bd + 1)"
  proof -
    have "of_int n < (2::rat) powi bn" by (rule pn(2))
    also have "\<dots> = 2 powi (bn - bd + 1) * 2 powi (bd - 1)"
      by (simp add: power_int_add [symmetric])
    also have "\<dots> \<le> 2 powi (bn - bd + 1) * of_int d"
      using pd(1) by (intro mult_left_mono) simp_all
    finally show ?thesis using dpos by (simp add: a pos_divide_less_eq)
  qed
  have il: "ilog2 a = (if 2 powi (bn - bd) \<le> a then bn - bd else bn - bd - 1)"
    by (simp add: ilog2_def q bn_def bd_def Let_def)
  show ?thesis
  proof (cases "2 powi (bn - bd) \<le> a")
    case True
    with il hi show ?thesis by simp
  next
    case False
    with il lo show ?thesis by simp
  qed
qed


lemma round_double_of_int:
  assumes "0 \<le> n" and "n < 2 ^ 53"
  shows "round_double (of_int n) = Inr (of_int n)"
proof (cases "n = 0")
  case True
  then show ?thesis by (simp add: round_double_def)
next
  case False
  with assms have n: "0 < n" by simp
  define a :: rat where "a = of_int n"
  have pos: "0 < a" using n by (simp add: a_def)
  define e where "e = ilog2 a"
  from ilog2_bounds [OF pos] have eb: "2 powi e \<le> a" "a < 2 powi (e + 1)"
    by (simp_all add: e_def)
  have e0: "0 \<le> e"
  proof (rule ccontr)
    assume "\<not> 0 \<le> e"
    then have "e + 1 \<le> 0" by simp
    then have "(2::rat) powi (e + 1) \<le> 2 powi 0"
      by (intro power_int_increasing) simp_all
    with eb(2) have "a < 1" by simp
    with n show False by (simp add: a_def)
  qed
  have e52: "e \<le> 52"
  proof (rule ccontr)
    assume "\<not> e \<le> 52"
    then have "53 \<le> e" by simp
    then have "(2::rat) powi 53 \<le> 2 powi e"
      by (intro power_int_increasing) simp_all
    with eb(1) have "(2::rat) ^ 53 \<le> a" by simp
    moreover have "a < 2 ^ 53"
    proof -
      have "(of_int n :: rat) < of_int (2 ^ 53)" using assms(2) by (simp only: of_int_less_iff)
      then show ?thesis by (simp add: a_def)
    qed
    ultimately show False by simp
  qed
  from e0 have q: "max (e - 52) (- 1074) = e - 52" by simp
  have sc: "a / 2 powi (e - 52) = of_int (n * 2 ^ nat (52 - e))"
  proof -
    have "(2::rat) powi (e - 52) = 1 / 2 powi (52 - e)"
      using power_int_minus_divide [of "2::rat" "52 - e"] by simp
    also have "(2::rat) powi (52 - e) = 2 ^ nat (52 - e)"
      using e52 by (simp add: power_int_def)
    finally show ?thesis by (simp add: a_def)
  qed
  have scaled_back: "of_int (n * 2 ^ nat (52 - e)) * (2::rat) powi (e - 52) = a"
    using sc by (simp add: field_simps)
  have no_overflow: "\<not> 2 powi 1024 \<le> a"
  proof -
    have "(of_int n :: rat) < of_int (2 ^ 53)" using assms(2) by (simp only: of_int_less_iff)
    then have "a < 2 ^ 53" by (simp add: a_def)
    also have "(2::rat) ^ 53 \<le> 2 ^ 1024" by (rule power_increasing) simp_all
    finally show ?thesis by simp
  qed
  have "round_double a = Inr a"
    using pos no_overflow
    by (simp add: round_double_def Let_def e_def [symmetric] q sc round_half_even_of_int scaled_back
        del: of_int_mult of_int_power)
  then show ?thesis by (simp add: a_def)
qed

lemma ilog2_unique:
  assumes "0 < a" and "2 powi e \<le> a" and "a < 2 powi (e + 1)"
  shows "ilog2 a = e"
proof -
  from ilog2_bounds [OF assms(1)]
  have i: "2 powi (ilog2 a) \<le> a" "a < 2 powi (ilog2 a + 1)" by simp_all
  have "\<not> ilog2 a < e"
  proof
    assume "ilog2 a < e"
    then have "(2::rat) powi (ilog2 a + 1) \<le> 2 powi e"
      by (intro power_int_increasing) simp_all
    with i(2) assms(2) show False by simp
  qed
  moreover have "\<not> e < ilog2 a"
  proof
    assume "e < ilog2 a"
    then have "(2::rat) powi (e + 1) \<le> 2 powi (ilog2 a)"
      by (intro power_int_increasing) simp_all
    with i(1) assms(3) show False by simp
  qed
  ultimately show ?thesis by simp
qed

lemma round_half_even_nearest:
  assumes "of_int m - 1 / 2 < y" and "y < of_int m + 1 / 2"
  shows "round_half_even y = m"
proof (cases "of_int m \<le> y")
  case True
  with assms(2) have "\<lfloor>y\<rfloor> = m" by (simp add: floor_unique)
  with assms(2) show ?thesis by (simp add: round_half_even_def)
next
  case False
  with assms(1) have "\<lfloor>y\<rfloor> = m - 1" by (intro floor_unique) simp_all
  with assms(1) show ?thesis by (simp add: round_half_even_def)
qed

lemma round_double_nearest:
  assumes "0 < a" and "2 powi e \<le> a" and "a < 2 powi (e + 1)" and "- 1022 \<le> e"
    and "of_int m - 1 / 2 < a / 2 powi (e - 52)" and "a / 2 powi (e - 52) < of_int m + 1 / 2"
    and "of_int m * 2 powi (e - 52) < (2::rat) powi 1024"
  shows "round_double a = Inr (of_int m * 2 powi (e - 52))"
proof -
  have e: "ilog2 a = e" using assms(1-3) by (rule ilog2_unique)
  have q: "max (e - 52) (- 1074) = e - 52" using assms(4) by simp
  have m: "round_half_even (a / 2 powi (e - 52)) = m"
    using assms(5,6) by (rule round_half_even_nearest)
  show ?thesis
    using assms(1,7) by (simp add: round_double_def Let_def e q m)
qed

subsection \<open>The width the downscaler computes\<close>






lemma Image_save_written:
  assumes "Image_save w im fp fmt q = (Inr u, w')"
  shows "\<exists>f'. files w' fp = Some (File (Encoded f' (im\<lparr>orientation := 1\<rparr>)))"
  using assms
  by (auto simp: Image_save_def put_content_def split: option.splits sum.splits if_splits)




subsection \<open>What the calls write\<close>

lemma dir_kept_same: "files w' d = files w d \<Longrightarrow> dir_kept w w' d"
  by (simp add: dir_kept_def split: option.splits node.splits)

lemma dir_kept_trans: "dir_kept w wa d \<Longrightarrow> dir_kept wa w' d \<Longrightarrow> dir_kept w w' d"
  by (auto simp: dir_kept_def split: option.splits node.splits)

lemma butlast_neq: "fp \<noteq> [] \<Longrightarrow> butlast fp \<noteq> fp"
  by (metis length_butlast diff_less length_greater_0_conv less_numeral_extra(1) nat_neq_iff)

lemma faults_open_for_writing: "open_for_writing w fp = Inr w1 \<Longrightarrow> faults w1 = faults w"
  by (auto simp: open_for_writing_def split: option.splits node.splits if_splits)

lemma open_for_writing_file:
  "files w fp = Some (File c) \<Longrightarrow>
     open_for_writing w fp =
       (if faults w fp = Some CannotOpen then Inl PermissionError
        else Inr (w\<lparr>files := (files w)(fp \<mapsto> File Undecodable), writes := writes w @ [fp]\<rparr>))"
  by (simp add: open_for_writing_def)

text \<open>The upscaler's write on a file that exists, by the fault on its path.\<close>

lemma cv2_imwrite_file:
  assumes "files w fp = Some (File c)" and "cv2_imwrite w fp m = (r, w')"
  shows "r = Inl Cv2Error \<and> w' = w \<and> cv2_encoder (str_lower (cv2_ext (Path_name fp))) = None
       \<or> cv2_encoder (str_lower (cv2_ext (Path_name fp))) \<noteq> None \<and>
         (faults w fp = None \<and> r = Inr True \<and> writes w' = writes w @ [fp] \<and>
            (\<exists>enc. files w' = (files w)(fp \<mapsto> File (Encoded enc
                \<lparr>width = cols m, height = rows m, mode = ''RGB'', orientation = 1\<rparr>)))
          \<or> faults w fp = Some CannotOpen \<and> r = Inr False \<and> w' = w
          \<or> faults w fp = Some CannotWrite \<and> r = Inr False \<and> files w' fp = None
          \<or> faults w fp = Some CannotWriteNorRemove \<and> r = Inr False \<and>
              files w' = (files w)(fp \<mapsto> File Undecodable))"
  using assms
  by (auto simp: cv2_imwrite_def open_for_writing_file put_content_def remove_file_def
      split: option.splits fault.splits if_splits node.splits)

lemma cv2_imwrite_frame:
  assumes "files w fp = Some (File c)" and "cv2_imwrite w fp m = (r, w')"
  shows "faults w' = faults w \<and> logged w' = logged w
       \<and> (\<forall>p. p \<noteq> fp \<longrightarrow> p \<noteq> butlast fp \<longrightarrow> files w' p = files w p)
       \<and> (\<forall>d. d \<noteq> fp \<longrightarrow> dir_kept w w' d)"
  using assms
  by (auto simp: cv2_imwrite_def open_for_writing_file put_content_def remove_file_def dir_kept_def
      split: option.splits fault.splits if_splits node.splits)

lemma Image_save_frame:
  assumes "files w fp = Some (File c)" and "Image_save w im fp fmt q = (r, w')"
  shows "faults w' = faults w \<and> logged w' = logged w
       \<and> (\<forall>p. p \<noteq> fp \<longrightarrow> files w' p = files w p)"
  using assms
  by (auto simp: Image_save_def open_for_writing_file put_content_def
      split: option.splits sum.splits if_splits)

lemma upscale_image_file:
  assumes "files w fp = Some (File (Encoded f img))" and "upscale_image w fp fp = (Inr b, w')"
  shows "cv2_encoder (str_lower (cv2_ext (Path_name fp))) \<noteq> None \<and>
         (faults w fp = None \<and> writes w' = writes w @ [fp] \<and>
            (\<exists>enc. files w' = (files w)(fp \<mapsto> File (Encoded enc
                \<lparr>width = 2 * (if transposes (orientation img) then height img else width img),
                   height = 2 * (if transposes (orientation img) then width img else height img),
                   mode = ''RGB'', orientation = 1\<rparr>)))
          \<or> faults w fp = Some CannotOpen \<and> w' = w
          \<or> faults w fp = Some CannotWrite \<and> files w' fp = None
          \<or> faults w fp = Some CannotWriteNorRemove \<and>
              files w' = (files w)(fp \<mapsto> File Undecodable))"
proof -
  let ?m = "\<lparr>rows = 2 * (if transposes (orientation img) then width img else height img),
             cols = 2 * (if transposes (orientation img) then height img else width img)\<rparr>"
  have "sr_upsample (cv2_imread w fp) = Inr ?m"
    using assms(1) by (simp add: cv2_imread_def sr_upsample_def sr_scale_def)
  with assms(2) obtain r where wr: "cv2_imwrite w fp ?m = (Inr r, w')"
    by (auto simp: upscale_image_def split: prod.splits sum.splits)
  from cv2_imwrite_file [OF assms(1) wr] show ?thesis by auto
qed

lemma upscale_image_frame:
  assumes "files w fp = Some (File c)" and "upscale_image w fp fp = (r, w')"
  shows "faults w' = faults w \<and> logged w' = logged w
       \<and> (\<forall>p. p \<noteq> fp \<longrightarrow> p \<noteq> butlast fp \<longrightarrow> files w' p = files w p)
       \<and> (\<forall>d. d \<noteq> fp \<longrightarrow> dir_kept w w' d)"
proof (cases "sr_upsample (cv2_imread w fp)")
  case (Inl e)
  with assms(2) have "w' = w" by (simp add: upscale_image_def)
  then show ?thesis by (simp add: dir_kept_same)
next
  case (Inr m)
  with assms(2) obtain r' where "cv2_imwrite w fp m = (r', w')"
    by (auto simp: upscale_image_def split: prod.splits sum.splits)
  from cv2_imwrite_frame [OF assms(1) this] show ?thesis .
qed

lemma upscale_step_frame:
  assumes "files w fp = Some (File c)" and "upscale_step w fp mh sz = (r, w')"
  shows "faults w' = faults w
       \<and> (\<forall>p. p \<noteq> fp \<longrightarrow> p \<noteq> butlast fp \<longrightarrow> files w' p = files w p)
       \<and> (\<forall>d. d \<noteq> fp \<longrightarrow> dir_kept w w' d)"
proof (cases "int (snd sz) < mh")
  case False
  with assms(2) have "w' = w" by (simp add: upscale_step_def)
  then show ?thesis by (simp add: dir_kept_same)
next
  case True
  obtain r' wa where up: "upscale_image w fp fp = (r', wa)"
    by (cases "upscale_image w fp fp")
  with True assms(2) have eq: "files w' = files wa" "faults w' = faults wa"
    by (auto simp: upscale_step_def logger_def split: sum.splits if_splits)
  then have "dir_kept w w' d = dir_kept w wa d" for d
    by (simp add: dir_kept_def split: option.splits node.splits)
  with upscale_image_frame [OF assms(1) up] eq show ?thesis by simp
qed

lemma upscale_step_encoded:
  assumes "files w fp = Some (File (Encoded f img))"
    and "upscale_step w fp mh (width img, height img) = (Inr u, w')"
  shows "\<not> int (height img) < mh \<and> files w' = files w \<and> writes w' = writes w
       \<or> int (height img) < mh \<and> cv2_encoder (str_lower (cv2_ext (Path_name fp))) \<noteq> None \<and>
         (faults w fp = None \<and>
            (\<exists>enc. files w' = (files w)(fp \<mapsto> File (Encoded enc
                \<lparr>width = 2 * (if transposes (orientation img) then height img else width img),
                   height = 2 * (if transposes (orientation img) then width img else height img),
                   mode = ''RGB'', orientation = 1\<rparr>)))
          \<or> faults w fp = Some CannotOpen \<and> files w' = files w \<and> writes w' = writes w
          \<or> faults w fp = Some CannotWrite \<and> files w' fp = None
          \<or> faults w fp = Some CannotWriteNorRemove \<and>
              files w' = (files w)(fp \<mapsto> File Undecodable))"
proof (cases "int (height img) < mh")
  case False
  with assms(2) show ?thesis by (simp add: upscale_step_def)
next
  case True
  with assms(2) obtain b wa where up: "upscale_image w fp fp = (Inr b, wa)"
    and w': "files w' = files wa" "writes w' = writes wa"
    by (auto simp: upscale_step_def logger_def split: prod.splits sum.splits if_splits)
  from upscale_image_file [OF assms(1) up] True w' show ?thesis by auto
qed

lemma downscale_step_frame:
  assumes "files w fp = Some (File c)" and "downscale_step w fp mh sz = (r, w')"
  shows "faults w' = faults w \<and> (\<forall>p. p \<noteq> fp \<longrightarrow> files w' p = files w p)"
proof (cases "mh < int (snd sz)")
  case False
  with assms(2) have "w' = w" by (simp add: downscale_step_def)
  then show ?thesis by simp
next
  case True
  obtain r' wa where rd: "resize_down_image_height w fp fp mh = (r', wa)"
    by (cases "resize_down_image_height w fp fp mh")
  with True assms(2) have eq: "files w' = files wa" "faults w' = faults wa"
    by (auto simp: downscale_step_def logger_def split: sum.splits if_splits)
  have "faults wa = faults w \<and> (\<forall>p. p \<noteq> fp \<longrightarrow> files wa p = files w p)"
    using rd Image_save_frame [OF assms(1)]
    by (auto simp: resize_down_image_height_def Let_def logger_def
        split: sum.splits prod.splits if_splits)
  with eq show ?thesis by simp
qed

lemma downscale_step_encoded:
  assumes "files w fp = Some (File (Encoded f img))"
    and "downscale_step w fp mh (width img, height img) = (Inr u, w')"
  shows "\<not> mh < int (height img) \<and> files w' = files w \<and> writes w' = writes w
       \<or> mh < int (height img) \<and>
         (\<exists>f' img'. files w' fp = Some (File (Encoded f' img')) \<and> int (height img') = mh)"
proof (cases "mh < int (height img)")
  case False
  with assms(2) show ?thesis by (simp add: downscale_step_def)
next
  case True
  have op: "Image_open w fp = Inr img"
    using assms(1) by (simp add: Image_open_def)
  from True assms(2) obtain b wa where rd: "resize_down_image_height w fp fp mh = (Inr b, wa)"
    and w': "files w' = files wa"
    by (auto simp: downscale_step_def logger_def split: prod.splits sum.splits if_splits)
  from rd op True have "b"
    by (auto simp: resize_down_image_height_def Let_def split: sum.splits prod.splits if_splits)
  with rd have "resize_down_image_height w fp fp mh = (Inr True, wa)" by simp
  from resize_down_returns_True [OF op this] obtain x where x: "1 \<le> mh"
    "Image_save w (img\<lparr>width := nat (py_int x), height := nat mh\<rparr>) fp None None = (Inr (), wa)"
    by blast
  from Image_save_written [OF x(2)] obtain f' where
    "files wa fp = Some (File (Encoded f'
       (img\<lparr>width := nat (py_int x), height := nat mh, orientation := 1\<rparr>)))"
    by auto
  moreover have "int (height (img\<lparr>width := nat (py_int x), height := nat mh, orientation := 1\<rparr>)) = mh"
    using x(1) by simp
  ultimately show ?thesis using True w' by auto
qed

lemma convert_step_returns:
  "convert_step w fp = (Inr u, w') \<Longrightarrow> w' = w \<and> Path_suffix fp \<notin> set [''.png'', ''.jpeg'']"
  using convert_img_to_jpg_raises [of w fp fp 90]
  by (auto simp: convert_step_def split: if_splits prod.splits sum.splits)

lemma convert_step_files:
  "convert_step w fp = (r, w') \<Longrightarrow> w' = w"
  using convert_img_to_jpg_raises [of w fp fp 90]
  by (auto simp: convert_step_def logger_def split: if_splits prod.splits sum.splits)

lemma get_image_size_Some:
  "get_image_size_from_fp w fp = (Inr (Some sz), wa) \<Longrightarrow>
     wa = w \<and> (\<exists>f img. files w fp = Some (File (Encoded f img)) \<and> sz = (width img, height img))"
  by (auto simp: get_image_size_from_fp_def Path_is_file_def Image_open_def
      split: if_splits sum.splits option.splits node.splits content.splits)

lemma get_image_size_None:
  "get_image_size_from_fp w fp = (Inr None, wa) \<Longrightarrow>
     wa = logger w (NotValidFile fp) \<and> \<not> Path_is_file w fp"
  by (auto simp: get_image_size_from_fp_def split: if_splits sum.splits)

lemma get_image_size_Inl:
  "get_image_size_from_fp w fp = (Inl e, wa) \<Longrightarrow> wa = w"
  by (auto simp: get_image_size_from_fp_def split: if_splits sum.splits)

lemma get_image_size_encoded:
  "files w fp = Some (File (Encoded f img)) \<Longrightarrow>
     get_image_size_from_fp w fp = (Inr (Some (width img, height img)), w)"
  by (simp add: get_image_size_from_fp_def Path_is_file_def Image_open_def)

lemma process_image_after_probe:
  assumes "files w fp = Some (File (Encoded f img))"
    and "upscale_step w fp mh (width img, height img) = (Inr u, wa)"
  shows "process_image w fp mh =
     (case get_image_size_from_fp wa fp of
        (Inl e, wb) \<Rightarrow> (Inl e, wb)
      | (Inr None, wb) \<Rightarrow> (Inr (), wb)
      | (Inr (Some sz), wb) \<Rightarrow>
          (case downscale_step wb fp mh sz of
             (Inl e, wc) \<Rightarrow> (Inl e, wc)
           | (Inr _, wc) \<Rightarrow> convert_step wc fp))"
  using assms by (simp add: process_image_def get_image_size_encoded)

lemma process_image_upscale_step:
  assumes "files w fp = Some (File (Encoded f img))"
    and "process_image w fp mh = (Inr u, w')"
  shows "\<exists>wa. upscale_step w fp mh (width img, height img) = (Inr (), wa)"
  using assms
  by (auto simp: process_image_def get_image_size_encoded split: prod.splits sum.splits)

lemma process_image_after_upscale:
  assumes "files w fp = Some (File (Encoded f img))"
    and "upscale_step w fp mh (width img, height img) = (Inr (), wa)"
    and "files wa fp = Some (File (Encoded fa imga))"
    and "process_image w fp mh = (Inr u, w')"
  shows "downscale_step wa fp mh (width imga, height imga) = (Inr (), w')
       \<and> Path_suffix fp \<notin> set [''.png'', ''.jpeg'']"
proof -
  from process_image_after_probe [OF assms(1,2)] assms(3,4)
  obtain wc where down: "downscale_step wa fp mh (width imga, height imga) = (Inr (), wc)"
    and conv: "convert_step wc fp = (Inr u, w')"
    by (auto simp: get_image_size_encoded split: prod.splits sum.splits)
  from convert_step_returns [OF conv] down show ?thesis by simp
qed

text \<open>What the loop body leaves of an image when it returns normally.\<close>

lemma process_image_encoded:
  assumes enc: "files w fp = Some (File (Encoded f img))"
    and run: "process_image w fp mh = (Inr u, w')"
  shows "(\<exists>f' img'. files w' fp = Some (File (Encoded f' img')) \<and> int (height img') = mh
            \<and> Path_suffix fp \<notin> set [''.png'', ''.jpeg''])
       \<or> (int (height img) < mh \<and> faults w fp = Some CannotOpen \<and> files w' = files w
            \<and> writes w' = writes w
            \<and> Path_suffix fp \<notin> set [''.png'', ''.jpeg'']
            \<and> cv2_encoder (str_lower (cv2_ext (Path_name fp))) \<noteq> None)
       \<or> (int (height img) < mh \<and> faults w fp = None
            \<and> (\<exists>f' img'. files w' fp = Some (File (Encoded f' img'))
                  \<and> height img' = 2 * (if transposes (orientation img) then width img else height img)
                  \<and> int (height img') < mh)
            \<and> Path_suffix fp \<notin> set [''.png'', ''.jpeg''])
       \<or> (int (height img) < mh \<and> faults w fp = Some CannotWrite \<and> files w' fp = None)"
proof -
  from process_image_upscale_step [OF enc run] obtain wa where
    up: "upscale_step w fp mh (width img, height img) = (Inr (), wa)" by blast
  let ?big = "\<lparr>width = 2 * (if transposes (orientation img) then height img else width img),
       height = 2 * (if transposes (orientation img) then width img else height img),
       mode = ''RGB'', orientation = 1\<rparr>"
  note ups = upscale_step_encoded [OF enc up]
  show ?thesis
  proof (cases "int (height img) < mh")
    case False
    with ups have "files wa = files w" by auto
    with enc have enca: "files wa fp = Some (File (Encoded f img))" by simp
    from process_image_after_upscale [OF enc up enca run]
    have down: "downscale_step wa fp mh (width img, height img) = (Inr (), w')"
      and suffix: "Path_suffix fp \<notin> set [''.png'', ''.jpeg'']" by simp_all
    from downscale_step_encoded [OF enca down] False enca suffix show ?thesis
      by auto
  next
    case low: True
    show ?thesis
    proof (cases "faults w fp")
      case None
      with ups low obtain enc' where "files wa = (files w)(fp \<mapsto> File (Encoded enc' ?big))"
        by auto
      then have enca: "files wa fp = Some (File (Encoded enc' ?big))" by simp
      from process_image_after_upscale [OF enc up enca run]
      have down: "downscale_step wa fp mh (width ?big, height ?big) = (Inr (), w')"
        and suffix: "Path_suffix fp \<notin> set [''.png'', ''.jpeg'']" by simp_all
      note ds = downscale_step_encoded [OF enca down]
      show ?thesis
      proof (cases "mh < int (height ?big)")
        case True
        with ds obtain f' img' where
          "files w' fp = Some (File (Encoded f' img'))" "int (height img') = mh"
          by auto
        with suffix show ?thesis by blast
      next
        case False
        with ds have "files w' = files wa" by auto
        with enca have e: "files w' fp = Some (File (Encoded enc' ?big))" by simp
        show ?thesis
        proof (cases "int (height ?big) = mh")
          case True
          with e suffix show ?thesis by blast
        next
          case neq: False
          with False have "int (height ?big) < mh" by simp
          moreover have "height ?big
              = 2 * (if transposes (orientation img) then width img else height img)"
            by simp
          ultimately show ?thesis using e suffix low None by blast
        qed
      qed
    next
      case (Some flt)
      show ?thesis
      proof (cases flt)
        case CannotOpen
        with ups low Some have same: "files wa = files w" "writes wa = writes w"
          and known: "cv2_encoder (str_lower (cv2_ext (Path_name fp))) \<noteq> None"
          by auto
        with enc have enca: "files wa fp = Some (File (Encoded f img))" by simp
        from process_image_after_upscale [OF enc up enca run]
        have down: "downscale_step wa fp mh (width img, height img) = (Inr (), w')"
          and suffix: "Path_suffix fp \<notin> set [''.png'', ''.jpeg'']" by simp_all
        from downscale_step_encoded [OF enca down] low
        have "files w' = files wa" "writes w' = writes wa" by auto
        with same known suffix low Some CannotOpen show ?thesis by simp
      next
        case CannotWrite
        with ups low Some have gone: "files wa fp = None" by auto
        then have "get_image_size_from_fp wa fp = (Inr None, logger wa (NotValidFile fp))"
          by (simp add: get_image_size_from_fp_def Path_is_file_def)
        with process_image_after_probe [OF enc up] run have "w' = logger wa (NotValidFile fp)"
          by simp
        with gone low Some CannotWrite show ?thesis by (simp add: logger_def)
      next
        case CannotWriteNorRemove
        with ups low Some have "files wa = (files w)(fp \<mapsto> File Undecodable)" by auto
        then have "get_image_size_from_fp wa fp = (Inl UnidentifiedImageError, wa)"
          by (simp add: get_image_size_from_fp_def Path_is_file_def Image_open_def)
        with process_image_after_probe [OF enc up] run show ?thesis by simp
      qed
    qed
  qed
qed

lemma frame_refl:
  "files w' = files w \<Longrightarrow> faults w' = faults w \<Longrightarrow>
     faults w' = faults w
       \<and> (\<forall>p. p \<noteq> fp \<longrightarrow> p \<noteq> butlast fp \<longrightarrow> files w' p = files w p)
       \<and> (\<forall>d. d \<noteq> fp \<longrightarrow> dir_kept w w' d)"
  by (simp add: dir_kept_same)

lemma frame_trans:
  assumes "faults wa = faults w
       \<and> (\<forall>p. p \<noteq> fp \<longrightarrow> p \<noteq> butlast fp \<longrightarrow> files wa p = files w p)
       \<and> (\<forall>d. d \<noteq> fp \<longrightarrow> dir_kept w wa d)"
    and "faults w' = faults wa
       \<and> (\<forall>p. p \<noteq> fp \<longrightarrow> p \<noteq> butlast fp \<longrightarrow> files w' p = files wa p)
       \<and> (\<forall>d. d \<noteq> fp \<longrightarrow> dir_kept wa w' d)"
  shows "faults w' = faults w
       \<and> (\<forall>p. p \<noteq> fp \<longrightarrow> p \<noteq> butlast fp \<longrightarrow> files w' p = files w p)
       \<and> (\<forall>d. d \<noteq> fp \<longrightarrow> dir_kept w w' d)"
  using assms by (auto intro: dir_kept_trans)

text \<open>
  The loop body on a path leaves the faults as they are and every other file as
  it is, but for the directory of the path, which can lose the name.
\<close>

lemma process_image_frame:
  assumes run: "process_image w fp mh = (r, w')"
  shows "faults w' = faults w
       \<and> (\<forall>p. p \<noteq> fp \<longrightarrow> p \<noteq> butlast fp \<longrightarrow> files w' p = files w p)
       \<and> (\<forall>d. d \<noteq> fp \<longrightarrow> dir_kept w w' d)"
proof (cases "files w fp")
  case None
  then have "\<not> Path_is_file w fp" by (simp add: Path_is_file_def)
  with run have "w' = logger w (NotValidFile fp)"
    by (auto simp: process_image_def get_image_size_from_fp_def)
  then show ?thesis by (intro frame_refl) (simp_all add: logger_def)
next
  case (Some n)
  show ?thesis
  proof (cases n)
    case (Dir names)
    with Some have "\<not> Path_is_file w fp" by (simp add: Path_is_file_def)
    with run have "w' = logger w (NotValidFile fp)"
      by (auto simp: process_image_def get_image_size_from_fp_def)
    then show ?thesis by (intro frame_refl) (simp_all add: logger_def)
  next
    case (File c)
    show ?thesis
    proof (cases c)
      case Undecodable
      with Some File run have "w' = w"
        by (simp add: process_image_def get_image_size_from_fp_def Path_is_file_def Image_open_def)
      then show ?thesis by (intro frame_refl) simp_all
    next
      case (Encoded f img)
      with Some File have enc: "files w fp = Some (File (Encoded f img))" by simp
      obtain r1 wa where up: "upscale_step w fp mh (width img, height img) = (r1, wa)"
        by (cases "upscale_step w fp mh (width img, height img)")
      note fa = upscale_step_frame [OF enc up]
      show ?thesis
      proof (cases r1)
        case (Inl e)
        with run enc up have "w' = wa"
          by (simp add: process_image_def get_image_size_encoded)
        with fa show ?thesis by blast
      next
        case (Inr u)
        with up have up': "upscale_step w fp mh (width img, height img) = (Inr u, wa)" by simp
        note body = process_image_after_probe [OF enc up']
        obtain r2 wb where probe: "get_image_size_from_fp wa fp = (r2, wb)"
          by (cases "get_image_size_from_fp wa fp")
        show ?thesis
        proof (cases r2)
          case (Inl e)
          with probe body run get_image_size_Inl [of wa fp e wb] have "w' = wa" by simp
          with fa show ?thesis by blast
        next
          case r2: (Inr so)
          show ?thesis
          proof (cases so)
            case None
            with probe r2 body run get_image_size_None [of wa fp wb]
            have "w' = logger wa (NotValidFile fp)" by simp
            then have "files w' = files wa" "faults w' = faults wa" by (simp_all add: logger_def)
            from fa frame_refl [OF this] show ?thesis by (rule frame_trans)
          next
            case (Some sz)
            with probe r2 get_image_size_Some [of wa fp sz wb]
            obtain fa' imga where wb: "wb = wa"
              and enca: "files wa fp = Some (File (Encoded fa' imga))"
              by auto
            obtain r3 wc where down: "downscale_step wa fp mh sz = (r3, wc)"
              by (cases "downscale_step wa fp mh sz")
            from downscale_step_frame [OF enca down]
            have fc: "faults wc = faults wa
                \<and> (\<forall>p. p \<noteq> fp \<longrightarrow> p \<noteq> butlast fp \<longrightarrow> files wc p = files wa p)
                \<and> (\<forall>d. d \<noteq> fp \<longrightarrow> dir_kept wa wc d)"
              by (simp add: dir_kept_same)
            have "w' = wc"
            proof (cases r3)
              case (Inl e)
              with probe r2 Some wb down body run show ?thesis by simp
            next
              case (Inr u')
              with probe r2 Some wb down body run have "convert_step wc fp = (r, w')" by simp
              then show ?thesis by (rule convert_step_files)
            qed
            with fc have "faults w' = faults wa
                \<and> (\<forall>p. p \<noteq> fp \<longrightarrow> p \<noteq> butlast fp \<longrightarrow> files w' p = files wa p)
                \<and> (\<forall>d. d \<noteq> fp \<longrightarrow> dir_kept wa w' d)"
              by blast
            with fa show ?thesis by (rule frame_trans)
          qed
        qed
      qed
    qed
  qed
qed

subsection \<open>The final height\<close>

text \<open>
  Claim C2 as the specification states it, refuted. An image of 50 by 100 pixels,
  with the minimum height 400, leaves the pipeline with height 200: not the
  minimum, not the height on entry, and the entry height did not satisfy the
  threshold. An image stored as 30 by 100 pixels with the EXIF orientation 6 is
  read by OpenCV as 100 by 30 and leaves the pipeline 200 wide and 60 high. On a
  device with no space left the upscaler's write fails, OpenCV removes the file,
  and the pipeline completes without it.
\<close>

theorem final_height_counterexample:
  "fst (process_supermarket_images world_small [''shop''] 400) = Inr True
   \<and> files world_small [''shop'', ''small.jpg'']
       = Some (File (Encoded JPEG \<lparr>width = 50, height = 100, mode = ''RGB'', orientation = 1\<rparr>))
   \<and> files (snd (process_supermarket_images world_small [''shop''] 400)) [''shop'', ''small.jpg'']
       = Some (File (Encoded JPEG \<lparr>width = 100, height = 200, mode = ''RGB'', orientation = 1\<rparr>))
   \<and> \<not> ((200::int) = 400 \<or> (200::int) = 100 \<or> (400::int) \<le> 100)
   \<and> fst (process_supermarket_images world_turned [''shop''] 400) = Inr True
   \<and> files world_turned [''shop'', ''turned.jpg'']
       = Some (File (Encoded JPEG \<lparr>width = 30, height = 100, mode = ''RGB'', orientation = 6\<rparr>))
   \<and> files (snd (process_supermarket_images world_turned [''shop''] 400)) [''shop'', ''turned.jpg'']
       = Some (File (Encoded JPEG \<lparr>width = 200, height = 60, mode = ''RGB'', orientation = 1\<rparr>))
   \<and> \<not> ((60::int) = 400 \<or> (60::int) = 100 \<or> (400::int) \<le> 100)
   \<and> fst (process_supermarket_images world_full [''shop''] 400) = Inr True
   \<and> files (snd (process_supermarket_images world_full [''shop''] 400)) [''shop'', ''small.jpg'']
       = None"
  by code_simp

text \<open>
  Claim C2, amended: when the loop body returns normally on a file that held an
  image on entry, one of four cases holds. The file holds an image of exactly the
  minimum height; or the image was below the minimum, the upscaler could not open
  the file for writing, and the file is unchanged; or the image was below the
  minimum and the file holds an image of twice the rows that OpenCV read (the
  stored height, or the stored width when the EXIF orientation transposes the
  image), still below the minimum; or the image was below the minimum, the
  upscaler's write failed after the file was opened, and the file no longer
  exists.
\<close>

theorem final_height:
  assumes "files w img_fp = Some (File (Encoded f img))"
    and "process_image w img_fp min_height = (Inr (), w')"
  shows "(\<exists>f' img'. files w' img_fp = Some (File (Encoded f' img'))
            \<and> int (height img') = min_height)
       \<or> (int (height img) < min_height \<and> faults w img_fp = Some CannotOpen
            \<and> files w' img_fp = files w img_fp)
       \<or> (int (height img) < min_height \<and> faults w img_fp = None
            \<and> (\<exists>f' img'. files w' img_fp = Some (File (Encoded f' img'))
                  \<and> height img' = 2 * (if transposes (orientation img) then width img else height img)
                  \<and> int (height img') < min_height))
       \<or> (int (height img) < min_height \<and> faults w img_fp = Some CannotWrite
            \<and> files w' img_fp = None)"
  using process_image_encoded [OF assms] by auto

theorem final_height_witness:
  "files world_small [''shop'', ''small.jpg'']
       = Some (File (Encoded JPEG \<lparr>width = 50, height = 100, mode = ''RGB'', orientation = 1\<rparr>))
   \<and> process_image world_small [''shop'', ''small.jpg''] 400
       = (Inr (), snd (process_image world_small [''shop'', ''small.jpg''] 400))
   \<and> files (snd (process_image world_small [''shop'', ''small.jpg''] 400)) [''shop'', ''small.jpg'']
       = Some (File (Encoded JPEG \<lparr>width = 100, height = 200, mode = ''RGB'', orientation = 1\<rparr>))
   \<and> ((\<exists>f' img'. files (snd (process_image world_small [''shop'', ''small.jpg''] 400))
                    [''shop'', ''small.jpg''] = Some (File (Encoded f' img'))
            \<and> int (height img') = 400)
       \<or> files (snd (process_image world_small [''shop'', ''small.jpg''] 400)) [''shop'', ''small.jpg'']
            = files world_small [''shop'', ''small.jpg'']
       \<or> (\<exists>f' img'. files (snd (process_image world_small [''shop'', ''small.jpg''] 400))
                    [''shop'', ''small.jpg''] = Some (File (Encoded f' img'))
            \<and> height img' = 2 * 100 \<and> int (height img') < 400)
       \<or> files (snd (process_image world_small [''shop'', ''small.jpg''] 400)) [''shop'', ''small.jpg'']
            = None)"
proof -
  have 1: "files world_small [''shop'', ''small.jpg'']
       = Some (File (Encoded JPEG \<lparr>width = 50, height = 100, mode = ''RGB'', orientation = 1\<rparr>))"
    by (simp add: world_small_def)
  have "fst (process_image world_small [''shop'', ''small.jpg''] 400) = Inr ()" by code_simp
  then have 2: "process_image world_small [''shop'', ''small.jpg''] 400
       = (Inr (), snd (process_image world_small [''shop'', ''small.jpg''] 400))"
    by (simp add: prod_eq_iff)
  have 3: "files (snd (process_image world_small [''shop'', ''small.jpg''] 400)) [''shop'', ''small.jpg'']
       = Some (File (Encoded JPEG \<lparr>width = 100, height = 200, mode = ''RGB'', orientation = 1\<rparr>))"
    by code_simp
  have 4: "\<not> transposes (orientation \<lparr>width = 50, height = 100, mode = ''RGB'', orientation = 1\<rparr>)"
    by (simp add: transposes_def)
  from 1 2 3 final_height [OF 1 2] 4 show ?thesis by auto
qed

subsection \<open>A second run\<close>

lemma settled_cong:
  "files w' fp = files w fp \<Longrightarrow> faults w' = faults w \<Longrightarrow> settled w' mh fp = settled w mh fp"
  by (simp add: settled_def split: option.splits node.splits content.splits)

lemma reaches_minimum_cong:
  "files w' fp = files w fp \<Longrightarrow> reaches_minimum w' mh fp = reaches_minimum w mh fp"
  by (simp add: reaches_minimum_def)

lemma settled_process_image:
  assumes "settled w mh fp"
  shows "\<exists>w'. process_image w fp mh = (Inr (), w') \<and> files w' = files w \<and> writes w' = writes w
           \<and> faults w' = faults w"
proof (cases "Path_is_file w fp")
  case False
  then show ?thesis
    by (simp add: process_image_def get_image_size_from_fp_def logger_def)
next
  case True
  with assms obtain f img where enc: "files w fp = Some (File (Encoded f img))"
    and suffix: "Path_suffix fp \<notin> set [''.png'', ''.jpeg'']"
    and h: "int (height img) = mh \<or>
         int (height img) < mh \<and> faults w fp = Some CannotOpen \<and>
         cv2_encoder (str_lower (cv2_ext (Path_name fp))) \<noteq> None"
    by (auto simp: settled_def Path_is_file_def split: option.splits node.splits content.splits)
  from suffix have conv: "convert_step wa fp = (Inr (), wa)" for wa
    by (simp add: convert_step_def)
  from h show ?thesis
  proof
    assume "int (height img) = mh"
    with enc conv show ?thesis
      by (simp add: upscale_step_def downscale_step_def process_image_def get_image_size_encoded)
  next
    assume stuck: "int (height img) < mh \<and> faults w fp = Some CannotOpen \<and>
         cv2_encoder (str_lower (cv2_ext (Path_name fp))) \<noteq> None"
    then obtain enc' where known: "cv2_encoder (str_lower (cv2_ext (Path_name fp))) = Some enc'"
      by auto
    have "cv2_imwrite w fp m = (Inr False, w)" for m
      using stuck enc known by (simp add: cv2_imwrite_def open_for_writing_file)
    then have "upscale_image w fp fp = (Inr True, w)"
      using enc by (simp add: upscale_image_def cv2_imread_def sr_upsample_def)
    with stuck have up: "upscale_step w fp mh (width img, height img)
        = (Inr (), logger w (Upscaled fp))"
      by (simp add: upscale_step_def)
    have enca: "files (logger w (Upscaled fp)) fp = Some (File (Encoded f img))"
      using enc by (simp add: logger_def)
    have "downscale_step (logger w (Upscaled fp)) fp mh (width img, height img)
        = (Inr (), logger w (Upscaled fp))"
      using stuck by (simp add: downscale_step_def)
    with process_image_after_probe [OF enc up] enca conv
    have "process_image w fp mh = (Inr (), logger w (Upscaled fp))"
      by (simp add: get_image_size_encoded)
    then show ?thesis by (simp add: logger_def)
  qed
qed

lemma process_image_settles:
  assumes run: "process_image w fp mh = (Inr (), w')" and pre: "reaches_minimum w mh fp"
  shows "settled w' mh fp \<and> reaches_minimum w' mh fp"
proof -
  note fr = process_image_frame [OF run]
  have unchanged: ?thesis if "\<not> Path_is_file w fp"
  proof -
    from that run have "files w' = files w"
      by (auto simp: process_image_def get_image_size_from_fp_def logger_def)
    with that show ?thesis
      by (auto simp: settled_def reaches_minimum_def Path_is_file_def
          split: option.splits node.splits)
  qed
  show ?thesis
  proof (cases "files w fp")
    case None
    then show ?thesis by (intro unchanged) (simp add: Path_is_file_def)
  next
    case (Some n)
    show ?thesis
    proof (cases n)
      case (Dir names)
      with Some show ?thesis by (intro unchanged) (simp add: Path_is_file_def)
    next
      case (File c)
      show ?thesis
      proof (cases c)
        case Undecodable
        with Some File run show ?thesis
          by (simp add: process_image_def get_image_size_from_fp_def Path_is_file_def
              Image_open_def)
      next
        case (Encoded f img)
        with Some File have enc: "files w fp = Some (File (Encoded f img))" by simp
        from pre enc have pre': "mh \<le> int (height img) \<or>
            mh \<le> 2 * int (if transposes (orientation img) then width img else height img)"
          by (simp add: reaches_minimum_def)
        from process_image_encoded [OF enc run] show ?thesis
        proof (elim disjE conjE exE)
          fix f' :: img_format and img' :: image
          assume "files w' fp = Some (File (Encoded f' img'))" "int (height img') = mh"
            "Path_suffix fp \<notin> set [''.png'', ''.jpeg'']"
          then show ?thesis by (simp add: settled_def reaches_minimum_def)
        next
          assume "int (height img) < mh" "faults w fp = Some CannotOpen" "files w' = files w"
            "Path_suffix fp \<notin> set [''.png'', ''.jpeg'']"
            "cv2_encoder (str_lower (cv2_ext (Path_name fp))) \<noteq> None"
          with enc fr pre' show ?thesis by (simp add: settled_def reaches_minimum_def)
        next
          fix f' :: img_format and img' :: image
          assume "int (height img) < mh"
            "height img' = 2 * (if transposes (orientation img) then width img else height img)"
            "int (height img') < mh"
          with pre' show ?thesis by (auto split: if_splits)
        next
          assume "files w' fp = None"
          then show ?thesis by (simp add: settled_def reaches_minimum_def)
        qed
      qed
    qed
  qed
qed

lemma process_images_settle:
  assumes "process_images w fps mh = (Inr (), w')"
    and "\<forall>fp\<in>set fps. reaches_minimum w mh fp"
    and "\<forall>fp\<in>set fps. fp \<noteq> [] \<and> butlast fp = d"
  shows "(\<forall>fp\<in>set fps. settled w' mh fp)
       \<and> (\<forall>p. p \<notin> set fps \<longrightarrow> p \<noteq> d \<longrightarrow> files w' p = files w p)
       \<and> dir_kept w w' d \<and> faults w' = faults w"
  using assms
proof (induction fps arbitrary: w)
  case Nil
  then show ?case by (simp add: dir_kept_same)
next
  case (Cons fp fps)
  from Cons.prems(1) obtain wa where
    one: "process_image w fp mh = (Inr (), wa)" and rest: "process_images wa fps mh = (Inr (), w')"
    by (auto split: prod.splits sum.splits)
  from Cons.prems(3) have fp: "fp \<noteq> []" "butlast fp = d" by simp_all
  then have dfp: "d \<noteq> fp" using butlast_neq [of fp] by auto
  from process_image_frame [OF one]
  have fa: "faults wa = faults w"
    and frame: "\<And>p. p \<noteq> fp \<Longrightarrow> p \<noteq> d \<Longrightarrow> files wa p = files w p"
    and kept: "dir_kept w wa d"
    using fp(2) dfp by auto
  from Cons.prems(2) have "reaches_minimum w mh fp" by simp
  from process_image_settles [OF one this]
  have sa: "settled wa mh fp" and ra: "reaches_minimum wa mh fp" by simp_all
  have pre: "\<forall>q\<in>set fps. reaches_minimum wa mh q"
  proof
    fix q assume q: "q \<in> set fps"
    show "reaches_minimum wa mh q"
    proof (cases "q = fp")
      case True
      with ra show ?thesis by simp
    next
      case False
      from q Cons.prems(3) have "q \<noteq> []" "butlast q = d" by simp_all
      then have "q \<noteq> d" using butlast_neq [of q] by auto
      with False have "files wa q = files w q" by (rule frame)
      then have "reaches_minimum wa mh q = reaches_minimum w mh q"
        by (rule reaches_minimum_cong)
      with Cons.prems(2) q show ?thesis by simp
    qed
  qed
  from Cons.prems(3) have par: "\<forall>q\<in>set fps. q \<noteq> [] \<and> butlast q = d" by simp
  from Cons.IH [OF rest pre par]
  have ih: "\<forall>q\<in>set fps. settled w' mh q"
    and fr: "\<And>p. p \<notin> set fps \<Longrightarrow> p \<noteq> d \<Longrightarrow> files w' p = files wa p"
    and kept': "dir_kept wa w' d" and fa': "faults w' = faults wa"
    by simp_all
  have "settled w' mh fp"
  proof (cases "fp \<in> set fps")
    case True
    with ih show ?thesis by simp
  next
    case False
    with dfp have "files w' fp = files wa fp" by (intro fr) simp_all
    then have "settled w' mh fp = settled wa mh fp" using fa' by (rule settled_cong)
    with sa show ?thesis by simp
  qed
  moreover have "\<forall>p. p \<notin> set (fp # fps) \<longrightarrow> p \<noteq> d \<longrightarrow> files w' p = files w p"
    using fr frame by simp
  moreover have "dir_kept w w' d" using kept kept' by (rule dir_kept_trans)
  moreover have "faults w' = faults w" using fa fa' by simp
  ultimately show ?case using ih by simp
qed

lemma process_images_settled:
  assumes "\<forall>fp\<in>set fps. settled w mh fp"
  shows "\<exists>w'. process_images w fps mh = (Inr (), w') \<and> files w' = files w \<and> writes w' = writes w"
  using assms
proof (induction fps arbitrary: w)
  case Nil
  then show ?case by simp
next
  case (Cons fp fps)
  from Cons.prems have "settled w mh fp" by simp
  from settled_process_image [OF this] obtain wa where
    one: "process_image w fp mh = (Inr (), wa)"
    and fa: "files wa = files w" "writes wa = writes w" "faults wa = faults w"
    by blast
  have "\<forall>q\<in>set fps. settled wa mh q"
  proof
    fix q assume "q \<in> set fps"
    with Cons.prems have "settled w mh q" by simp
    moreover from fa have "settled wa mh q = settled w mh q"
      by (intro settled_cong) simp_all
    ultimately show "settled wa mh q" by simp
  qed
  from Cons.IH [OF this] obtain w' where
    "process_images wa fps mh = (Inr (), w')" "files w' = files wa" "writes w' = writes wa"
    by blast
  with one fa show ?case by simp
qed

text \<open>
  Claim C3 as the specification states it, refuted: the first run leaves the
  image of 50 by 100 pixels at 100 by 200, and the second run upscales it again
  and writes the file a second time. With the minimum height 200, the image
  stored as 30 by 100 pixels with the EXIF orientation 6 has half the minimum
  height as stored, is left 60 pixels high by the first run, and is written again
  by the second.
\<close>

theorem second_run_counterexample:
  "fst (process_supermarket_images world_small [''shop''] 400) = Inr True
   \<and> files (snd (process_supermarket_images world_small [''shop''] 400)) [''shop'', ''small.jpg'']
       = Some (File (Encoded JPEG \<lparr>width = 100, height = 200, mode = ''RGB'', orientation = 1\<rparr>))
   \<and> files (snd (process_supermarket_images
                   (snd (process_supermarket_images world_small [''shop''] 400)) [''shop''] 400))
         [''shop'', ''small.jpg'']
       = Some (File (Encoded JPEG \<lparr>width = 200, height = 400, mode = ''RGB'', orientation = 1\<rparr>))
   \<and> writes (snd (process_supermarket_images world_small [''shop''] 400)) = [[''shop'', ''small.jpg'']]
   \<and> writes (snd (process_supermarket_images
                   (snd (process_supermarket_images world_small [''shop''] 400)) [''shop''] 400))
       = [[''shop'', ''small.jpg''], [''shop'', ''small.jpg'']]
   \<and> files world_turned [''shop'', ''turned.jpg'']
       = Some (File (Encoded JPEG \<lparr>width = 30, height = 100, mode = ''RGB'', orientation = 6\<rparr>))
   \<and> fst (process_supermarket_images world_turned [''shop''] 200) = Inr True
   \<and> files (snd (process_supermarket_images world_turned [''shop''] 200)) [''shop'', ''turned.jpg'']
       = Some (File (Encoded JPEG \<lparr>width = 200, height = 60, mode = ''RGB'', orientation = 1\<rparr>))
   \<and> writes (snd (process_supermarket_images
                   (snd (process_supermarket_images world_turned [''shop''] 200)) [''shop''] 200))
       = [[''shop'', ''turned.jpg''], [''shop'', ''turned.jpg'']]"
  by code_simp

text \<open>
  Claim C3, amended: when a run returns \<^verbatim>\<open>True\<close> on a directory in which every
  listed image has at least the minimum height, or is read by OpenCV with at
  least half the minimum height of rows, a second run in the world the first run
  left returns \<^verbatim>\<open>True\<close>, opens no file for writing and leaves every file as it is.
\<close>

theorem second_run_writes_nothing:
  assumes run: "process_supermarket_images w img_dir min_height = (Inr True, w')"
    and reach: "\<forall>fp\<in>set (fst (list_image_fps w img_dir [''.png'', ''.jpg''])).
                 reaches_minimum w min_height fp"
  shows "\<exists>w''. process_supermarket_images w' img_dir min_height = (Inr True, w'')
           \<and> files w'' = files w' \<and> writes w'' = writes w'"
proof -
  let ?listed = "\<lambda>w. map (\<lambda>fn. img_dir @ [fn])
      (filter (\<lambda>fn. str_lower (Path_suffix [fn]) \<in> set [''.png'', ''.jpg'']) (os_listdir w img_dir))"
  from run have dir: "Path_is_dir w img_dir"
    by (auto simp: process_supermarket_images_def os_path_isdir_def split: if_splits)
  then have lst: "list_image_fps w img_dir [''.png'', ''.jpg''] = (?listed w, w)"
    by (simp add: list_image_fps_def)
  with run dir have loop: "process_images w (?listed w) min_height = (Inr (), w')"
    by (auto simp: process_supermarket_images_def os_path_isdir_def split: prod.splits sum.splits)
  from reach lst have pre: "\<forall>fp\<in>set (?listed w). reaches_minimum w min_height fp" by simp
  have par: "\<forall>fp\<in>set (?listed w). fp \<noteq> [] \<and> butlast fp = img_dir" by auto
  from process_images_settle [OF loop pre par]
  have settled: "\<forall>fp\<in>set (?listed w). settled w' min_height fp"
    and kept: "dir_kept w w' img_dir"
    by simp_all
  from dir kept have dir': "Path_is_dir w' img_dir"
    and names: "set (os_listdir w' img_dir) \<subseteq> set (os_listdir w img_dir)"
    by (auto simp: Path_is_dir_def os_listdir_def dir_kept_def split: option.splits node.splits)
  then have lst': "list_image_fps w' img_dir [''.png'', ''.jpg''] = (?listed w', w')"
    by (simp add: list_image_fps_def)
  from names have "set (?listed w') \<subseteq> set (?listed w)" by auto
  with settled have "\<forall>fp\<in>set (?listed w'). settled w' min_height fp" by blast
  from process_images_settled [OF this] obtain w'' where
    "process_images w' (?listed w') min_height = (Inr (), w'')"
    "files w'' = files w'" "writes w'' = writes w'"
    by blast
  with dir' lst' show ?thesis
    by (simp add: process_supermarket_images_def os_path_isdir_def)
qed

theorem second_run_writes_nothing_witness:
  "process_supermarket_images world_half [''shop''] 400
     = (Inr True, snd (process_supermarket_images world_half [''shop''] 400))
   \<and> fst (list_image_fps world_half [''shop''] [''.png'', ''.jpg''])
       = [[''shop'', ''half.jpg''], [''shop'', ''old.jpg'']]
   \<and> reaches_minimum world_half 400 [''shop'', ''half.jpg'']
   \<and> reaches_minimum world_half 400 [''shop'', ''old.jpg'']
   \<and> (\<exists>w''. process_supermarket_images
                 (snd (process_supermarket_images world_half [''shop''] 400)) [''shop''] 400
               = (Inr True, w'')
           \<and> files w'' = files (snd (process_supermarket_images world_half [''shop''] 400))
           \<and> writes w'' = writes (snd (process_supermarket_images world_half [''shop''] 400)))"
proof -
  have "fst (process_supermarket_images world_half [''shop''] 400) = Inr True" by code_simp
  then have 1: "process_supermarket_images world_half [''shop''] 400
     = (Inr True, snd (process_supermarket_images world_half [''shop''] 400))"
    by (simp add: prod_eq_iff)
  have 2: "fst (list_image_fps world_half [''shop''] [''.png'', ''.jpg''])
       = [[''shop'', ''half.jpg''], [''shop'', ''old.jpg'']]"
    by code_simp
  have 3: "reaches_minimum world_half 400 [''shop'', ''half.jpg'']" by code_simp
  have 4: "reaches_minimum world_half 400 [''shop'', ''old.jpg'']" by code_simp
  from 2 3 4 have 5: "\<forall>fp\<in>set (fst (list_image_fps world_half [''shop''] [''.png'', ''.jpg''])).
         reaches_minimum world_half 400 fp"
    by simp
  from 1 2 3 4 second_run_writes_nothing [OF 1 5] show ?thesis by blast
qed

subsection \<open>Exceptions\<close>

lemma process_image_bad:
  "process_image world_bad [''shop'', ''bad.jpg''] 400 = (Inl UnidentifiedImageError, world_bad)"
  by (simp add: process_image_def get_image_size_from_fp_def Path_is_file_def Image_open_def
      world_bad_def)

lemma list_image_fps_bad:
  "list_image_fps world_bad [''shop''] [''.png'', ''.jpg'']
     = ([[''shop'', ''bad.jpg''], [''shop'', ''good.jpg'']], world_bad)"
proof -
  have "fst (list_image_fps world_bad [''shop''] [''.png'', ''.jpg''])
     = [[''shop'', ''bad.jpg''], [''shop'', ''good.jpg'']]" by code_simp
  moreover have "Path_is_dir world_bad [''shop'']" by code_simp
  then have "snd (list_image_fps world_bad [''shop''] [''.png'', ''.jpg'']) = world_bad"
    by (simp add: list_image_fps_def)
  ultimately show ?thesis by (simp add: prod_eq_iff)
qed

lemma probe_bad:
  "get_image_size_from_fp world_bad [''shop'', ''bad.jpg'']
     = (Inl UnidentifiedImageError, world_bad)"
  by (simp add: get_image_size_from_fp_def Path_is_file_def Image_open_def world_bad_def)

text \<open>
  One directory for each call of the loop body that raises: the upscaler on a name
  OpenCV has no encoder for, the second probe on a file the upscaler left empty,
  the downscaler on a new width of zero, the format normalizer on any image.
\<close>

lemma probe_dat:
  "get_image_size_from_fp world_dat [''shop'', ''scan.dat''] = (Inr (Some (50, 100)), world_dat)"
  by (simp add: get_image_size_from_fp_def Path_is_file_def Image_open_def world_dat_def)

lemma upscale_image_dat:
  "upscale_image world_dat [''shop'', ''scan.dat''] [''shop'', ''scan.dat'']
     = (Inl Cv2Error, world_dat)"
proof -
  have "cv2_encoder (str_lower (cv2_ext (Path_name [''shop'', ''scan.dat'']))) = None"
    by code_simp
  then show ?thesis
    by (simp add: upscale_image_def cv2_imwrite_def cv2_imread_def sr_upsample_def world_dat_def)
qed

lemma probe_stuck:
  "get_image_size_from_fp world_stuck [''shop'', ''small.jpg'']
     = (Inr (Some (50, 100)), world_stuck)"
  by (simp add: get_image_size_from_fp_def Path_is_file_def Image_open_def world_stuck_def
      world_small_def)

lemma upscale_step_stuck:
  "upscale_step world_stuck [''shop'', ''small.jpg''] 400 (50, 100)
     = (Inr (),
        logger (world_stuck\<lparr>files := (files world_stuck)([''shop'', ''small.jpg''] \<mapsto> File Undecodable),
                  writes := [[''shop'', ''small.jpg'']]\<rparr>)
          (Upscaled [''shop'', ''small.jpg'']))"
proof -
  have "cv2_encoder (str_lower (cv2_ext (Path_name [''shop'', ''small.jpg'']))) = Some JPEG"
    by code_simp
  then show ?thesis
    by (simp add: upscale_step_def upscale_image_def cv2_imwrite_def cv2_imread_def
        sr_upsample_def open_for_writing_def world_stuck_def world_small_def)
qed

lemma probe_stuck_after:
  "get_image_size_from_fp
     (logger (world_stuck\<lparr>files := (files world_stuck)([''shop'', ''small.jpg''] \<mapsto> File Undecodable),
                writes := [[''shop'', ''small.jpg'']]\<rparr>)
        (Upscaled [''shop'', ''small.jpg''])) [''shop'', ''small.jpg'']
     = (Inl UnidentifiedImageError,
        logger (world_stuck\<lparr>files := (files world_stuck)([''shop'', ''small.jpg''] \<mapsto> File Undecodable),
                  writes := [[''shop'', ''small.jpg'']]\<rparr>)
          (Upscaled [''shop'', ''small.jpg'']))"
  by (simp add: get_image_size_from_fp_def Path_is_file_def Image_open_def logger_def)

lemma probe_strip:
  "get_image_size_from_fp world_strip [''shop'', ''strip.jpg'']
     = (Inr (Some (1, 800)), world_strip)"
  by (simp add: get_image_size_from_fp_def Path_is_file_def Image_open_def world_strip_def)

lemma upscale_step_strip:
  "upscale_step world_strip [''shop'', ''strip.jpg''] 400 (1, 800) = (Inr (), world_strip)"
  by (simp add: upscale_step_def)

lemma int_truediv_400_800: "int_truediv 400 800 = Inr (1 / 2)"
proof -
  have "round_double (400 / 800) = Inr (of_int 4503599627370496 * 2 powi (- 1 - 52))"
    by (rule round_double_nearest) (simp_all add: power_int_minus_divide)
  then show ?thesis
    by (simp add: int_truediv_def power_int_minus_divide)
qed

lemma int_mul_float_half: "int_mul_float 1 (1 / 2) = Inr (1 / 2)"
proof -
  have "round_double (of_int 1) = Inr (of_int 1)"
    by (rule round_double_of_int) simp_all
  moreover have "round_double (1 / 2) = Inr (of_int 4503599627370496 * 2 powi (- 1 - 52))"
    by (rule round_double_nearest) (simp_all add: power_int_minus_divide)
  ultimately show ?thesis
    by (simp add: int_mul_float_def power_int_minus_divide)
qed

lemma py_int_half: "py_int (1 / 2) = 0"
proof -
  have "\<lfloor>1 / 2 :: rat\<rfloor> = 0"
    by (rule floor_unique) simp_all
  then show ?thesis by (simp add: py_int_def)
qed

lemma resize_down_strip:
  "resize_down_image_height world_strip [''shop'', ''strip.jpg''] [''shop'', ''strip.jpg''] 400
     = (Inl ValueError, world_strip)"
proof -
  have op: "Image_open world_strip [''shop'', ''strip.jpg'']
      = Inr \<lparr>width = 1, height = 800, mode = ''RGB'', orientation = 1\<rparr>"
    by (simp add: Image_open_def world_strip_def)
  show ?thesis
    by (simp add: resize_down_image_height_def op int_truediv_400_800 int_mul_float_half
        py_int_half Image_resize_def)
qed

lemma probe_png:
  "get_image_size_from_fp world_png [''shop'', ''logo.png'']
     = (Inr (Some (100, 400)), world_png)"
  by (simp add: get_image_size_from_fp_def Path_is_file_def Image_open_def world_png_def)

lemma steps_png:
  "upscale_step world_png [''shop'', ''logo.png''] 400 (100, 400) = (Inr (), world_png)"
  "downscale_step world_png [''shop'', ''logo.png''] 400 (100, 400) = (Inr (), world_png)"
  by (simp_all add: upscale_step_def downscale_step_def)

lemma suffix_logo_png: "Path_suffix [''shop'', ''logo.png''] = ''.png''"
  by code_simp

lemma convert_png:
  "convert_img_to_jpg world_png [''shop'', ''logo.png''] [''shop'', ''logo.png''] 90
     = (Inl (KeyError ''JPG''), world_png)"
proof -
  have "SAVE (str_upper ''JPG'') = None" "str_upper ''JPG'' = ''JPG''" by code_simp+
  then show ?thesis
    by (simp add: convert_img_to_jpg_def Image_open_def Image_save_def world_png_def)
qed

lemma not_file_thumbs: "\<not> Path_is_file world_sub [''shop'', ''thumbs.png'']"
  by (simp add: Path_is_file_def world_sub_def)

lemma isdir_bad: "os_path_isdir world_bad [''shop'']"
  by (simp add: os_path_isdir_def Path_is_dir_def world_bad_def)

text \<open>
  Claim C1 as the specification states it, refuted: the first file of the
  directory is no image, the probe raises, the exception leaves
  \<^verbatim>\<open>process_supermarket_images\<close>, and the second file, a regular file, is never
  processed.
\<close>

theorem exception_aborts_batch_counterexample:
  "process_supermarket_images world_bad [''shop''] 400 = (Inl UnidentifiedImageError, world_bad)
   \<and> Path_is_file world_bad [''shop'', ''good.jpg'']"
proof -
  have "os_path_isdir world_bad [''shop'']" by code_simp
  moreover have "Path_is_file world_bad [''shop'', ''good.jpg'']" by code_simp
  ultimately show ?thesis
    by (simp add: process_supermarket_images_def list_image_fps_bad process_image_bad)
qed

lemma process_images_append_raise:
  "process_images w seen mh = (Inr (), wa) \<Longrightarrow> process_image wa fp mh = (Inl e, wb)
     \<Longrightarrow> process_images w (seen @ fp # later) mh = (Inl e, wb)"
  by (induction seen arbitrary: w) (auto split: prod.splits sum.splits)

text \<open>
  Claim C1, amended: the loop catches nothing. A listed path that is no regular
  file is logged and skipped, and the loop goes on with the next path. An
  exception of the first probe, of the upscaler, of the second probe, of the
  downscaler or of the format normalizer leaves the loop body with the world as
  it is at that moment; an exception that leaves the loop body ends the loop,
  whatever files follow, and leaves \<^verbatim>\<open>process_supermarket_images\<close>.
\<close>

theorem exceptions_propagate:
  "(\<not> Path_is_file w img_fp \<longrightarrow>
      process_images w (img_fp # img_fps) min_height
        = process_images (logger w (NotValidFile img_fp)) img_fps min_height)
   \<and> (get_image_size_from_fp w img_fp = (Inl e, wz) \<longrightarrow>
        process_image w img_fp min_height = (Inl e, wz))
   \<and> (get_image_size_from_fp w img_fp = (Inr (Some size_a), wa)
        \<and> int (snd size_a) < min_height
        \<and> upscale_image wa img_fp img_fp = (Inl e, wz) \<longrightarrow>
        process_image w img_fp min_height = (Inl e, wz))
   \<and> (get_image_size_from_fp w img_fp = (Inr (Some size_a), wa)
        \<and> upscale_step wa img_fp min_height size_a = (Inr (), wb)
        \<and> get_image_size_from_fp wb img_fp = (Inl e, wz) \<longrightarrow>
        process_image w img_fp min_height = (Inl e, wz))
   \<and> (get_image_size_from_fp w img_fp = (Inr (Some size_a), wa)
        \<and> upscale_step wa img_fp min_height size_a = (Inr (), wb)
        \<and> get_image_size_from_fp wb img_fp = (Inr (Some size_b), wc)
        \<and> min_height < int (snd size_b)
        \<and> resize_down_image_height wc img_fp img_fp min_height = (Inl e, wz) \<longrightarrow>
        process_image w img_fp min_height = (Inl e, wz))
   \<and> (get_image_size_from_fp w img_fp = (Inr (Some size_a), wa)
        \<and> upscale_step wa img_fp min_height size_a = (Inr (), wb)
        \<and> get_image_size_from_fp wb img_fp = (Inr (Some size_b), wc)
        \<and> downscale_step wc img_fp min_height size_b = (Inr (), wd)
        \<and> Path_suffix img_fp \<in> set [''.png'', ''.jpeg'']
        \<and> convert_img_to_jpg wd img_fp img_fp 90 = (Inl e, wz) \<longrightarrow>
        process_image w img_fp min_height = (Inl e, wz))
   \<and> (process_images w seen min_height = (Inr (), wa)
        \<and> process_image wa img_fp min_height = (Inl e, wz) \<longrightarrow>
        process_images w (seen @ img_fp # later) min_height = (Inl e, wz))
   \<and> (os_path_isdir w img_dir
        \<and> process_images w (fst (list_image_fps w img_dir [''.png'', ''.jpg''])) min_height
            = (Inl e, wz) \<longrightarrow>
        process_supermarket_images w img_dir min_height = (Inl e, wz))"
proof -
  have "\<not> Path_is_file w img_fp \<Longrightarrow>
      process_image w img_fp min_height = (Inr (), logger w (NotValidFile img_fp))"
    by (simp add: process_image_def get_image_size_from_fp_def)
  then have 1: "\<not> Path_is_file w img_fp \<longrightarrow>
      process_images w (img_fp # img_fps) min_height
        = process_images (logger w (NotValidFile img_fp)) img_fps min_height"
    by simp
  have 2: "get_image_size_from_fp w img_fp = (Inl e, wz) \<longrightarrow>
        process_image w img_fp min_height = (Inl e, wz)"
    by (simp add: process_image_def)
  have 3: "get_image_size_from_fp w img_fp = (Inr (Some size_a), wa)
        \<and> int (snd size_a) < min_height
        \<and> upscale_image wa img_fp img_fp = (Inl e, wz) \<longrightarrow>
        process_image w img_fp min_height = (Inl e, wz)"
    by (simp add: process_image_def upscale_step_def)
  have 4: "get_image_size_from_fp w img_fp = (Inr (Some size_a), wa)
        \<and> upscale_step wa img_fp min_height size_a = (Inr (), wb)
        \<and> get_image_size_from_fp wb img_fp = (Inl e, wz) \<longrightarrow>
        process_image w img_fp min_height = (Inl e, wz)"
    by (simp add: process_image_def)
  have 5: "get_image_size_from_fp w img_fp = (Inr (Some size_a), wa)
        \<and> upscale_step wa img_fp min_height size_a = (Inr (), wb)
        \<and> get_image_size_from_fp wb img_fp = (Inr (Some size_b), wc)
        \<and> min_height < int (snd size_b)
        \<and> resize_down_image_height wc img_fp img_fp min_height = (Inl e, wz) \<longrightarrow>
        process_image w img_fp min_height = (Inl e, wz)"
    by (simp add: process_image_def downscale_step_def)
  have 6: "get_image_size_from_fp w img_fp = (Inr (Some size_a), wa)
        \<and> upscale_step wa img_fp min_height size_a = (Inr (), wb)
        \<and> get_image_size_from_fp wb img_fp = (Inr (Some size_b), wc)
        \<and> downscale_step wc img_fp min_height size_b = (Inr (), wd)
        \<and> Path_suffix img_fp \<in> set [''.png'', ''.jpeg'']
        \<and> convert_img_to_jpg wd img_fp img_fp 90 = (Inl e, wz) \<longrightarrow>
        process_image w img_fp min_height = (Inl e, wz)"
    by (simp add: process_image_def convert_step_def)
  have 7: "process_images w seen min_height = (Inr (), wa)
        \<and> process_image wa img_fp min_height = (Inl e, wz) \<longrightarrow>
        process_images w (seen @ img_fp # later) min_height = (Inl e, wz)"
    using process_images_append_raise by blast
  have 8: "os_path_isdir w img_dir
        \<and> process_images w (fst (list_image_fps w img_dir [''.png'', ''.jpg''])) min_height
            = (Inl e, wz) \<longrightarrow>
        process_supermarket_images w img_dir min_height = (Inl e, wz)"
    by (auto simp: process_supermarket_images_def os_path_isdir_def list_image_fps_def)
  from 1 2 3 4 5 6 7 8 show ?thesis by blast
qed

theorem exceptions_propagate_witness:
  "\<not> Path_is_file world_sub [''shop'', ''thumbs.png'']
   \<and> process_images world_sub [[''shop'', ''thumbs.png'']] 400
       = (Inr (), logger world_sub (NotValidFile [''shop'', ''thumbs.png'']))
   \<and> get_image_size_from_fp world_bad [''shop'', ''bad.jpg'']
       = (Inl UnidentifiedImageError, world_bad)
   \<and> process_image world_bad [''shop'', ''bad.jpg''] 400 = (Inl UnidentifiedImageError, world_bad)
   \<and> upscale_image world_dat [''shop'', ''scan.dat''] [''shop'', ''scan.dat'']
       = (Inl Cv2Error, world_dat)
   \<and> process_image world_dat [''shop'', ''scan.dat''] 400 = (Inl Cv2Error, world_dat)
   \<and> fst (get_image_size_from_fp
             (snd (upscale_step world_stuck [''shop'', ''small.jpg''] 400 (50, 100)))
             [''shop'', ''small.jpg'']) = Inl UnidentifiedImageError
   \<and> fst (process_image world_stuck [''shop'', ''small.jpg''] 400) = Inl UnidentifiedImageError
   \<and> resize_down_image_height world_strip [''shop'', ''strip.jpg''] [''shop'', ''strip.jpg''] 400
       = (Inl ValueError, world_strip)
   \<and> process_image world_strip [''shop'', ''strip.jpg''] 400 = (Inl ValueError, world_strip)
   \<and> convert_img_to_jpg world_png [''shop'', ''logo.png''] [''shop'', ''logo.png''] 90
       = (Inl (KeyError ''JPG''), world_png)
   \<and> process_image world_png [''shop'', ''logo.png''] 400 = (Inl (KeyError ''JPG''), world_png)
   \<and> process_images world_bad [] 400 = (Inr (), world_bad)
   \<and> process_images world_bad ([] @ [''shop'', ''bad.jpg''] # [[''shop'', ''good.jpg'']]) 400
       = (Inl UnidentifiedImageError, world_bad)
   \<and> os_path_isdir world_bad [''shop'']
   \<and> process_supermarket_images world_bad [''shop''] 400
       = (Inl UnidentifiedImageError, world_bad)"
proof -
  have a: "process_images world_sub [[''shop'', ''thumbs.png'']] 400
       = (Inr (), logger world_sub (NotValidFile [''shop'', ''thumbs.png'']))"
    using exceptions_propagate [where w = world_sub and img_fp = "[''shop'', ''thumbs.png'']"
        and img_fps = "[]" and min_height = 400] not_file_thumbs
    by simp
  have b: "process_image world_bad [''shop'', ''bad.jpg''] 400
       = (Inl UnidentifiedImageError, world_bad)"
    using exceptions_propagate [where w = world_bad and img_fp = "[''shop'', ''bad.jpg'']"
        and min_height = 400 and e = UnidentifiedImageError and wz = world_bad] probe_bad
    by simp
  have c: "process_image world_dat [''shop'', ''scan.dat''] 400 = (Inl Cv2Error, world_dat)"
    using exceptions_propagate [where w = world_dat and img_fp = "[''shop'', ''scan.dat'']"
        and min_height = 400 and e = Cv2Error and wz = world_dat and wa = world_dat
        and size_a = "(50, 100)"] probe_dat upscale_image_dat
    by simp
  have d: "fst (process_image world_stuck [''shop'', ''small.jpg''] 400)
       = Inl UnidentifiedImageError"
    using exceptions_propagate [where w = world_stuck and img_fp = "[''shop'', ''small.jpg'']"
        and min_height = 400 and e = UnidentifiedImageError and wa = world_stuck
        and size_a = "(50, 100)"
        and wb = "logger (world_stuck\<lparr>files := (files world_stuck)([''shop'', ''small.jpg''] \<mapsto> File Undecodable),
                  writes := [[''shop'', ''small.jpg'']]\<rparr>)
          (Upscaled [''shop'', ''small.jpg''])"
        and wz = "logger (world_stuck\<lparr>files := (files world_stuck)([''shop'', ''small.jpg''] \<mapsto> File Undecodable),
                  writes := [[''shop'', ''small.jpg'']]\<rparr>)
          (Upscaled [''shop'', ''small.jpg''])"]
      probe_stuck upscale_step_stuck probe_stuck_after
    by simp
  have e: "process_image world_strip [''shop'', ''strip.jpg''] 400 = (Inl ValueError, world_strip)"
    using exceptions_propagate [where w = world_strip and img_fp = "[''shop'', ''strip.jpg'']"
        and min_height = 400 and e = ValueError and wa = world_strip and wb = world_strip
        and wc = world_strip and wz = world_strip and size_a = "(1, 800)" and size_b = "(1, 800)"]
      probe_strip upscale_step_strip resize_down_strip
    by simp
  have f: "process_image world_png [''shop'', ''logo.png''] 400
       = (Inl (KeyError ''JPG''), world_png)"
    using exceptions_propagate [where w = world_png and img_fp = "[''shop'', ''logo.png'']"
        and min_height = 400 and e = "KeyError ''JPG''" and wa = world_png and wb = world_png
        and wc = world_png and wd = world_png and wz = world_png
        and size_a = "(100, 400)" and size_b = "(100, 400)"]
      probe_png steps_png suffix_logo_png convert_png
    by simp
  have g: "process_images world_bad ([] @ [''shop'', ''bad.jpg''] # [[''shop'', ''good.jpg'']]) 400
       = (Inl UnidentifiedImageError, world_bad)"
    using exceptions_propagate [where w = world_bad and seen = "[]" and wa = world_bad
        and img_fp = "[''shop'', ''bad.jpg'']" and later = "[[''shop'', ''good.jpg'']]"
        and min_height = 400 and e = UnidentifiedImageError and wz = world_bad]
      process_image_bad
    by simp
  have h: "process_supermarket_images world_bad [''shop''] 400
       = (Inl UnidentifiedImageError, world_bad)"
    using exceptions_propagate [where w = world_bad and img_dir = "[''shop'']"
        and min_height = 400 and e = UnidentifiedImageError and wz = world_bad]
      isdir_bad list_image_fps_bad process_image_bad
    by simp
  have i: "fst (get_image_size_from_fp
             (snd (upscale_step world_stuck [''shop'', ''small.jpg''] 400 (50, 100)))
             [''shop'', ''small.jpg'']) = Inl UnidentifiedImageError"
    by (simp add: upscale_step_stuck probe_stuck_after)
  show ?thesis
    using a b c d e f g h i
    by (simp add: not_file_thumbs probe_bad upscale_image_dat resize_down_strip convert_png
        isdir_bad)
qed

end
